theory Spec2Isabelle
  imports Main
begin

section \<open>JavaScript values and the object heap\<close>

text \<open>
  The client of \<^verbatim>\<open>index.js\<close> handles caller-supplied event objects. Objects are
  modelled as cells of a heap and referred to by address, so that a write to an object is
  visible through every reference to it. Primitive values are carried directly.
  Numbers are integers here (no fractions, no NaN); functions and symbols are not event
  data and are outside the value type.
\<close>

type_synonym addr = nat

datatype jsval =
    JUndefined
  | JNull
  | JBool bool
  | JNum int
  | JStr string
  | JRef addr

text \<open>JavaScript truthiness: \<^verbatim>\<open>undefined\<close>, \<^verbatim>\<open>null\<close>, \<^verbatim>\<open>false\<close>, \<^verbatim>\<open>0\<close> and \<^verbatim>\<open>''\<close> are falsy.\<close>

fun truthy :: "jsval \<Rightarrow> bool" where
  "truthy JUndefined = False"
| "truthy JNull = False"
| "truthy (JBool b) = b"
| "truthy (JNum n) = (n \<noteq> 0)"
| "truthy (JStr s) = (s \<noteq> [])"
| "truthy (JRef a) = True"

datatype objkind = KObject | KArray | KString | KDate int

text \<open>
  A heap cell holds the class of the object and its own enumerable properties, which is
  what \<^verbatim>\<open>Object.assign\<close> reads from a source and what a property read on a plain
  object finds.
\<close>

record cell =
  kind :: objkind
  props :: "string \<rightharpoonup> jsval"

type_synonym heap = "cell list"

definition alloc :: "heap \<Rightarrow> cell \<Rightarrow> addr \<times> heap" where
  "alloc h c = (length h, h @ [c])"

text \<open>Decimal rendering of an array index, for the index keys of a string.\<close>

fun digit_char :: "nat \<Rightarrow> char" where
  "digit_char n = char_of (48 + n)"

fun show_nat_aux :: "nat \<Rightarrow> nat \<Rightarrow> string \<Rightarrow> string" where
  "show_nat_aux 0 n acc = acc"
| "show_nat_aux (Suc fuel) n acc =
     (if n < 10 then digit_char n # acc
      else show_nat_aux fuel (n div 10) (digit_char (n mod 10) # acc))"

definition show_nat :: "nat \<Rightarrow> string" where
  "show_nat n = show_nat_aux (Suc n) n []"

text \<open>
  A primitive string used as a source of \<^verbatim>\<open>Object.assign\<close> is boxed, and its own
  enumerable properties are its characters under their indices.
\<close>

definition string_props :: "string \<Rightarrow> (string \<rightharpoonup> jsval)" where
  "string_props s = map_of (map (\<lambda>i. (show_nat i, JStr [s ! i])) [0..<length s])"

text \<open>
  The own enumerable properties \<^verbatim>\<open>Object.assign\<close> copies from a source value:
  \<^verbatim>\<open>undefined\<close>, \<^verbatim>\<open>null\<close>, numbers and booleans contribute none.
\<close>

definition own_props :: "heap \<Rightarrow> jsval \<Rightarrow> (string \<rightharpoonup> jsval)" where
  "own_props h v =
     (case v of
        JRef a \<Rightarrow> (if a < length h then props (h ! a) else Map.empty)
      | JStr s \<Rightarrow> string_props s
      | _ \<Rightarrow> Map.empty)"

text \<open>
  \<^verbatim>\<open>v[key]\<close> for an own property of \<open>v\<close>: \<^verbatim>\<open>undefined\<close> when the key is missing.
  Inherited properties are not modelled; the keys read by the client are not properties of
  \<^verbatim>\<open>Object.prototype\<close>.
\<close>

definition get_prop :: "heap \<Rightarrow> jsval \<Rightarrow> string \<Rightarrow> jsval" where
  "get_prop h v k = (case own_props h v k of Some x \<Rightarrow> x | None \<Rightarrow> JUndefined)"

text \<open>\<^verbatim>\<open>obj.key = v\<close> on the object at address \<open>a\<close>.\<close>

definition set_prop :: "heap \<Rightarrow> addr \<Rightarrow> string \<Rightarrow> jsval \<Rightarrow> heap" where
  "set_prop h a k v =
     (if a < length h then h[a := (h ! a)\<lparr>props := (props (h ! a))(k \<mapsto> v)\<rparr>] else h)"

text \<open>
  \<^verbatim>\<open>Object.assign(literal, source)\<close> where the target is a fresh object literal with
  properties \<open>base\<close>: the source's properties are written over the target's.
\<close>

definition Object_assign :: "heap \<Rightarrow> (string \<rightharpoonup> jsval) \<Rightarrow> jsval \<Rightarrow> addr \<times> heap" where
  "Object_assign h base source =
     alloc h \<lparr>kind = KObject, props = base ++ own_props h source\<rparr>"

text \<open>
  \<^verbatim>\<open>lodash.isstring\<close>: a primitive string, or a \<^verbatim>\<open>String\<close> wrapper object.
\<close>

definition isString :: "heap \<Rightarrow> jsval \<Rightarrow> bool" where
  "isString h v =
     (case v of
        JStr s \<Rightarrow> True
      | JRef a \<Rightarrow> a < length h \<and> kind (h ! a) = KString
      | _ \<Rightarrow> False)"

section \<open>Collaborators outside the repository\<close>

text \<open>
  A failed request as \<^verbatim>\<open>axios\<close> reports it: the error carries the remote's response
  when there was one.
\<close>

record response =
  status :: int
  statusText :: string

record axios_error =
  response :: "response option"
  code :: "string option"
  err_message :: string

datatype error = AssertionError string | ValidationError string

text \<open>
  The packages the client calls are parameters of the model: the package version and the
  Node version, \<^verbatim>\<open>JSON.stringify\<close> (taken as total: cyclic structures, on which it
  throws, are not considered), \<^verbatim>\<open>md5\<close>, \<^verbatim>\<open>uuid\<close> (indexed by the number of
  identifiers drawn so far), \<^verbatim>\<open>ms\<close>, \<^verbatim>\<open>remove-trailing-slash\<close>,
  \<^verbatim>\<open>is-retry-allowed\<close> and \<^verbatim>\<open>@segment/loosely-validate-event\<close>, which
  either accepts an event (\<open>None\<close>) or throws.
\<close>

record env =
  version :: string
  nodeVersion :: string
  JSON_stringify :: "heap \<Rightarrow> jsval \<Rightarrow> string"
  md5 :: "string \<Rightarrow> string"
  uuid :: "nat \<Rightarrow> string"
  ms :: "string \<Rightarrow> jsval"
  removeSlash :: "string \<Rightarrow> string"
  isRetryAllowed :: "axios_error \<Rightarrow> bool"
  looselyValidate :: "heap \<Rightarrow> jsval \<Rightarrow> string \<Rightarrow> error option"

text \<open>
  \<^verbatim>\<open>axiosRetry.isNetworkError\<close>, as the 3.x releases of \<^verbatim>\<open>axios-retry\<close> have it:
  \<^verbatim>\<open>!error.response && Boolean(error.code) && error.code !== 'ECONNABORTED' && isRetryAllowed(error)\<close>.
  A failure is a network error when no response came, it has an error code (a cancelled
  request has none), the code is not the one of a timed out request, and the last test
  does not refuse it. The last test is the parameter: \<^verbatim>\<open>is-retry-allowed\<close>, together
  with the further codes a later 3.x release excludes.
\<close>

definition isNetworkError :: "env \<Rightarrow> axios_error \<Rightarrow> bool" where
  "isNetworkError env err =
     (response err = None
      \<and> (case code err of None \<Rightarrow> False | Some c \<Rightarrow> c \<noteq> [])
      \<and> code err \<noteq> Some ''ECONNABORTED''
      \<and> isRetryAllowed env err)"

section \<open>Client state and the runtime\<close>

text \<open>
  A callback is the caller's function, identified by a number, or the client's
  \<^verbatim>\<open>noop\<close>. Callbacks are observed through the trace of their invocations and are
  taken to return normally.
\<close>

datatype callback = Noop | Fn nat

record entry =
  message :: jsval
  callback :: callback

record batch_data =
  batch :: "jsval list"
  timestamp :: int
  sentAt :: int

record request =
  req_method :: string
  url :: string
  data :: batch_data
  headers :: "(string \<times> jsval) list"
  req_timeout :: "jsval option"

text \<open>The error argument and the batch argument a callback can receive.\<close>

datatype arg =
    AUndefined
  | ANewError string
  | ATransportError axios_error
  | AData batch_data

datatype call = Invoke callback "arg list"

text \<open>A request in flight, with what its \<^verbatim>\<open>done\<close> closure has captured.\<close>

record pending =
  req :: request
  callbacks :: "callback list"
  flush_callback :: callback

text \<open>The fields of \<^verbatim>\<open>this\<close>. An unset or cleared \<^verbatim>\<open>timer\<close> is \<open>None\<close>.\<close>

record client =
  queue :: "entry list"
  writeKey :: jsval
  host :: string
  timeout :: jsval
  flushAt :: int
  flushInterval :: int
  flushed :: bool
  enable :: bool
  timer :: "nat option"

text \<open>
  What the client acts on besides its own fields: the heap, the clock read by
  \<^verbatim>\<open>new Date()\<close>, the callbacks scheduled by \<^verbatim>\<open>setImmediate\<close>, the armed
  timers (handle and delay; each one calls \<^verbatim>\<open>flush\<close> when it fires), the requests
  handed to \<^verbatim>\<open>axios\<close>, those still in flight, and the trace of callback invocations.
\<close>

record runtime =
  heap :: heap
  clock :: int
  entropy :: nat
  immediates :: "callback list"
  timers :: "(nat \<times> int) list"
  next_timer :: nat
  sent :: "request list"
  inflight :: "pending list"
  trace :: "call list"

definition setImmediate :: "callback \<Rightarrow> runtime \<Rightarrow> runtime" where
  "setImmediate cb r = r\<lparr>immediates := immediates r @ [cb]\<rparr>"

definition setTimeout :: "int \<Rightarrow> runtime \<Rightarrow> nat \<times> runtime" where
  "setTimeout delay r =
     (next_timer r, r\<lparr>timers := timers r @ [(next_timer r, delay)], next_timer := Suc (next_timer r)\<rparr>)"

definition clearTimeout :: "nat \<Rightarrow> runtime \<Rightarrow> runtime" where
  "clearTimeout h r = r\<lparr>timers := filter (\<lambda>t. fst t \<noteq> h) (timers r)\<rparr>"

definition axios :: "request \<Rightarrow> callback list \<Rightarrow> callback \<Rightarrow> runtime \<Rightarrow> runtime" where
  "axios rq cbs cb r =
     r\<lparr>sent := sent r @ [rq],
       inflight := inflight r @ [\<lparr>req = rq, callbacks = cbs, flush_callback = cb\<rparr>]\<rparr>"

definition new_Date :: "heap \<Rightarrow> int \<Rightarrow> addr \<times> heap" where
  "new_Date h now = alloc h \<lparr>kind = KDate now, props = Map.empty\<rparr>"

section \<open>The constructor\<close>

text \<open>
  The recognised options, each absent or given. \<^verbatim>\<open>flushAt\<close>, \<^verbatim>\<open>flushInterval\<close>
  and \<^verbatim>\<open>retryCount\<close> are numbers and \<^verbatim>\<open>host\<close> is a string when given.
\<close>

record options =
  opt_host :: "string option"
  opt_timeout :: "jsval option"
  opt_flushAt :: "int option"
  opt_flushInterval :: "int option"
  opt_enable :: "jsval option"
  opt_retryCount :: "int option"

definition no_options :: options where
  "no_options = \<lparr>opt_host = None, opt_timeout = None, opt_flushAt = None,
     opt_flushInterval = None, opt_enable = None, opt_retryCount = None\<rparr>"

definition default_host :: string where
  "default_host = ''https://tanalytics-collector-api-6wyfjoyn3q-uc.a.run.app''"

text \<open>\<^verbatim>\<open>retries: options.retryCount || 3\<close>, handed to \<^verbatim>\<open>axiosRetry\<close>.\<close>

definition retries :: "options \<Rightarrow> int" where
  "retries opts = (case opt_retryCount opts of Some n \<Rightarrow> (if n \<noteq> 0 then n else 3) | None \<Rightarrow> 3)"

definition constructor :: "env \<Rightarrow> jsval \<Rightarrow> options option \<Rightarrow> error + client" where
  "constructor env wk opts =
     (let opts = (case opts of None \<Rightarrow> no_options | Some given \<Rightarrow> given)
      in if \<not> truthy wk
         then Inl (AssertionError (''You must pass your project'' @ [CHR 0x27] @ ''s write key.''))
         else Inr \<lparr>
           queue = [],
           writeKey = wk,
           host = removeSlash env
             (case opt_host opts of
                Some s \<Rightarrow> (if s \<noteq> [] then s else default_host)
              | None \<Rightarrow> default_host),
           timeout =
             (case opt_timeout opts of
                Some t \<Rightarrow> (if truthy t then t else JBool False)
              | None \<Rightarrow> JBool False),
           flushAt = (case opt_flushAt opts of Some n \<Rightarrow> max n 1 | None \<Rightarrow> 20),
           flushInterval =
             (case opt_flushInterval opts of
                Some n \<Rightarrow> (if n \<noteq> 0 then n else 10000)
              | None \<Rightarrow> 10000),
           flushed = False,
           enable = (case opt_enable opts of Some (JBool b) \<Rightarrow> b | _ \<Rightarrow> True),
           timer = None\<rparr>)"

section \<open>Enrichment\<close>

text \<open>
  The first part of \<^verbatim>\<open>enqueue\<close>, up to the push: the caller's event is copied into a
  fresh object \<open>m\<close>, and everything after that is written to \<open>m\<close>.
\<close>

text \<open>\<^verbatim>\<open>if (!message.timestamp) message.timestamp = new Date()\<close>\<close>

definition default_timestamp :: "int \<Rightarrow> addr \<Rightarrow> heap \<Rightarrow> heap" where
  "default_timestamp now m h =
     (if \<not> truthy (get_prop h (JRef m) ''timestamp'')
      then (let (d, h1) = new_Date h now in set_prop h1 m ''timestamp'' (JRef d))
      else h)"

text \<open>
  \<^verbatim>\<open>if (!message.messageId) message.messageId = `node-${md5(JSON.stringify(message))}-${uuid()}`\<close>;
  the second component counts the identifiers drawn.
\<close>

definition default_messageId :: "env \<Rightarrow> nat \<Rightarrow> addr \<Rightarrow> heap \<Rightarrow> heap \<times> nat" where
  "default_messageId env n m h =
     (if \<not> truthy (get_prop h (JRef m) ''messageId'')
      then (set_prop h m ''messageId''
              (JStr (''node-'' @ md5 env (JSON_stringify env h (JRef m)) @ ''-'' @ uuid env n)),
            Suc n)
      else (h, n))"

text \<open>
  \<^verbatim>\<open>if (message[k] && !isString(message[k])) message[k] = JSON.stringify(message[k])\<close>,
  for \<open>k\<close> one of \<^verbatim>\<open>anonymousId\<close> and \<^verbatim>\<open>userId\<close>.
\<close>

definition coerce_id :: "env \<Rightarrow> string \<Rightarrow> addr \<Rightarrow> heap \<Rightarrow> heap" where
  "coerce_id env k m h =
     (let v = get_prop h (JRef m) k
      in if truthy v \<and> \<not> isString h v
         then set_prop h m k (JStr (JSON_stringify env h v))
         else h)"

text \<open>
  Lines 96 to 107: the copy of the event, its \<^verbatim>\<open>type\<close>, and the two merges. Each
  \<^verbatim>\<open>Object.assign\<close> has a fresh object literal as its target; the caller's
  \<^verbatim>\<open>context\<close> and \<^verbatim>\<open>_metadata\<close> are only sources.
\<close>

definition copy_and_merge :: "env \<Rightarrow> string \<Rightarrow> jsval \<Rightarrow> heap \<Rightarrow> addr \<times> heap" where
  "copy_and_merge env ty msg h =
     (let (m, h1) = Object_assign h Map.empty msg;
          h2 = set_prop h1 m ''type'' (JStr ty);
          (lib, h3) = alloc h2 \<lparr>kind = KObject,
             props = [''name'' \<mapsto> JStr ''theanalyticsapi'', ''version'' \<mapsto> JStr (version env)]\<rparr>;
          (ctx, h4) = Object_assign h3 [''library'' \<mapsto> JRef lib] (get_prop h3 (JRef m) ''context'');
          h5 = set_prop h4 m ''context'' (JRef ctx);
          (md, h6) = Object_assign h5 [''nodeVersion'' \<mapsto> JStr (nodeVersion env)]
                       (get_prop h5 (JRef m) ''_metadata'');
          h7 = set_prop h6 m ''_metadata'' (JRef md)
      in (m, h7))"

text \<open>Lines 96 to 126: the enriched record is the object at the returned address.\<close>

definition enrich :: "env \<Rightarrow> string \<Rightarrow> jsval \<Rightarrow> runtime \<Rightarrow> addr \<times> runtime" where
  "enrich env ty msg r =
     (let (m, h7) = copy_and_merge env ty msg (heap r);
          h8 = default_timestamp (clock r) m h7;
          (h9, n) = default_messageId env (entropy r) m h8;
          h10 = coerce_id env ''anonymousId'' m h9;
          h11 = coerce_id env ''userId'' m h10
      in (m, r\<lparr>heap := h11, entropy := n\<rparr>))"

section \<open>Flush and enqueue\<close>

text \<open>\<^verbatim>\<open>callback = callback || noop\<close>\<close>

definition or_noop :: "callback option \<Rightarrow> callback" where
  "or_noop cb = (case cb of None \<Rightarrow> Noop | Some f \<Rightarrow> f)"

text \<open>\<^verbatim>\<open>if (this.timer) { clearTimeout(this.timer); this.timer = null }\<close>\<close>

definition clear_timer :: "client \<times> runtime \<Rightarrow> client \<times> runtime" where
  "clear_timer s =
     (case timer (fst s) of
        Some h \<Rightarrow> ((fst s)\<lparr>timer := None\<rparr>, clearTimeout h (snd s))
      | None \<Rightarrow> s)"

text \<open>
  The request \<^verbatim>\<open>flush\<close> builds for the entries \<open>items\<close> it has spliced off. The two
  \<^verbatim>\<open>new Date()\<close> of the batch are read from the clock.
\<close>

definition make_request :: "env \<Rightarrow> client \<Rightarrow> int \<Rightarrow> entry list \<Rightarrow> request" where
  "make_request env c now items =
     \<lparr>req_method = ''POST'',
      url = host c @ ''/api/track/events'',
      data = \<lparr>batch = map message items, timestamp = now, sentAt = now\<rparr>,
      headers = [(''user-agent'', JStr (''theanalyticsapi-client-node/'' @ version env)),
                 (''api_key'', writeKey c)],
      req_timeout =
        (if truthy (timeout c)
         then Some (case timeout c of JStr t \<Rightarrow> ms env t | t \<Rightarrow> t)
         else None)\<rparr>"

text \<open>
  \<^verbatim>\<open>this.queue.splice(0, this.flushAt)\<close> removes and returns the first
  \<^verbatim>\<open>flushAt\<close> entries, none when \<^verbatim>\<open>flushAt\<close> is negative.
\<close>

fun flush :: "env \<Rightarrow> callback option \<Rightarrow> client \<times> runtime \<Rightarrow> client \<times> runtime" where
  "flush env cb (c, r) =
     (if \<not> enable c then (c, setImmediate (or_noop cb) r)
      else
        let (c1, r1) = clear_timer (c, r)
        in if queue c1 = [] then (c1, setImmediate (or_noop cb) r1)
           else
             let items = take (nat (flushAt c1)) (queue c1);
                 c2 = c1\<lparr>queue := drop (nat (flushAt c1)) (queue c1)\<rparr>
             in (c2, axios (make_request env c2 (clock r1) items)
                       (map callback items) (or_noop cb) r1))"

fun enqueue :: "env \<Rightarrow> string \<Rightarrow> jsval \<Rightarrow> callback option \<Rightarrow> client \<times> runtime
    \<Rightarrow> client \<times> runtime" where
  "enqueue env ty msg cb (c, r) =
     (if \<not> enable c then (c, setImmediate (or_noop cb) r)
      else
        let (m, r1) = enrich env ty msg r;
            c1 = c\<lparr>queue := queue c @ [\<lparr>message = JRef m, callback = or_noop cb\<rparr>]\<rparr>
        in if \<not> flushed c1 then flush env None (c1\<lparr>flushed := True\<rparr>, r1)
           else
             let (c2, r2) =
                   (if flushAt c1 \<le> int (length (queue c1)) then flush env None (c1, r1)
                    else (c1, r1))
             in if flushInterval c2 \<noteq> 0 \<and> timer c2 = None
                then (let (h, r3) = setTimeout (flushInterval c2) r2
                      in (c2\<lparr>timer := Some h\<rparr>, r3))
                else (c2, r2))"

text \<open>
  \<^verbatim>\<open>track\<close> validates first; an exception of the validator leaves \<^verbatim>\<open>track\<close>
  before \<^verbatim>\<open>enqueue\<close> is called.
\<close>

fun track :: "env \<Rightarrow> jsval \<Rightarrow> callback option \<Rightarrow> client \<times> runtime
    \<Rightarrow> error + client \<times> runtime" where
  "track env msg cb (c, r) =
     (case looselyValidate env (heap r) msg ''track'' of
        Some e \<Rightarrow> Inl e
      | None \<Rightarrow> Inr (enqueue env ''track'' msg cb (c, r)))"

section \<open>Outcome of a request\<close>

text \<open>
  \<^verbatim>\<open>done(err)\<close>: every entry callback of the batch is called with \<open>err\<close>, then the
  flush callback with \<open>err\<close> and the batch.
\<close>

definition flush_done :: "pending \<Rightarrow> arg \<Rightarrow> runtime \<Rightarrow> runtime" where
  "flush_done p err r =
     r\<lparr>trace := trace r @ map (\<lambda>cb. Invoke cb [err]) (callbacks p)
                 @ [Invoke (flush_callback p) [err, AData (data (req p))]]\<rparr>"

datatype outcome = Fulfilled | Rejected axios_error

text \<open>The \<^verbatim>\<open>.then\<close> and \<^verbatim>\<open>.catch\<close> handlers of the request.\<close>

definition settle :: "outcome \<Rightarrow> pending \<Rightarrow> runtime \<Rightarrow> runtime" where
  "settle out p r =
     (case out of
        Fulfilled \<Rightarrow> flush_done p AUndefined r
      | Rejected err \<Rightarrow>
          (case response err of
             Some resp \<Rightarrow> flush_done p (ANewError (statusText resp)) r
           | None \<Rightarrow> flush_done p (ATransportError err) r))"

definition isErrorRetryable :: "env \<Rightarrow> axios_error \<Rightarrow> bool" where
  "isErrorRetryable env err =
     (if isNetworkError env err then True
      else case response err of
             None \<Rightarrow> False
           | Some resp \<Rightarrow>
               (if 500 \<le> status resp \<and> status resp \<le> 599 then True
                else if status resp = 429 then True
                else False))"

section \<open>Runs of a client\<close>

text \<open>
  What can happen to a client and its runtime: a call of \<^verbatim>\<open>track\<close>,
  \<^verbatim>\<open>enqueue\<close> or \<^verbatim>\<open>flush\<close>, an armed timer firing, the event loop running the
  oldest \<^verbatim>\<open>setImmediate\<close> callback, a request in flight settling, the caller
  creating an object, and time passing.
\<close>

datatype event =
    Track jsval "callback option"
  | Enqueue string jsval "callback option"
  | Flush "callback option"
  | TimerFires nat
  | RunImmediate
  | Settle nat outcome
  | NewObject cell
  | Tick int

definition timer_fires :: "env \<Rightarrow> nat \<Rightarrow> client \<times> runtime \<Rightarrow> client \<times> runtime" where
  "timer_fires env h s =
     (if h \<in> fst ` set (timers (snd s))
      then flush env None (fst s, clearTimeout h (snd s))
      else s)"

definition run_immediate :: "runtime \<Rightarrow> runtime" where
  "run_immediate r =
     (case immediates r of
        [] \<Rightarrow> r
      | cb # rest \<Rightarrow> r\<lparr>immediates := rest, trace := trace r @ [Invoke cb []]\<rparr>)"

definition settle_at :: "nat \<Rightarrow> outcome \<Rightarrow> runtime \<Rightarrow> runtime" where
  "settle_at i out r =
     (if i < length (inflight r)
      then settle out (inflight r ! i)
             (r\<lparr>inflight := take i (inflight r) @ drop (Suc i) (inflight r)\<rparr>)
      else r)"

fun step :: "env \<Rightarrow> event \<Rightarrow> client \<times> runtime \<Rightarrow> client \<times> runtime" where
  "step env (Track msg cb) s = (case track env msg cb s of Inl e \<Rightarrow> s | Inr s1 \<Rightarrow> s1)"
| "step env (Enqueue ty msg cb) s = enqueue env ty msg cb s"
| "step env (Flush cb) s = flush env cb s"
| "step env (TimerFires h) s = timer_fires env h s"
| "step env RunImmediate s = (fst s, run_immediate (snd s))"
| "step env (Settle i out) s = (fst s, settle_at i out (snd s))"
| "step env (NewObject obj) s = (fst s, (snd s)\<lparr>heap := heap (snd s) @ [obj]\<rparr>)"
| "step env (Tick d) s = (fst s, (snd s)\<lparr>clock := clock (snd s) + d\<rparr>)"

definition run :: "env \<Rightarrow> event list \<Rightarrow> client \<times> runtime \<Rightarrow> client \<times> runtime" where
  "run env evs s = fold (step env) evs s"

text \<open>The runtime before anything has happened, with the objects of \<open>h\<close> on the heap.\<close>

definition fresh_runtime :: "heap \<Rightarrow> runtime" where
  "fresh_runtime h = \<lparr>heap = h, clock = 0, entropy = 0, immediates = [], timers = [],
     next_timer = 0, sent = [], inflight = [], trace = []\<rparr>"

text \<open>
  A value that is not a dangling reference: a primitive, or the address of an object of
  the heap.
\<close>

definition allocated :: "heap \<Rightarrow> jsval \<Rightarrow> bool" where
  "allocated h v = (case v of JRef a \<Rightarrow> a < length h | _ \<Rightarrow> True)"

section \<open>An environment and inputs for examples\<close>

text \<open>
  The theorems below hold for every environment. To evaluate the model on concrete inputs,
  this environment stands in for the packages: the version is the one of
  \<^verbatim>\<open>package.json\<close>, \<^verbatim>\<open>JSON.stringify\<close> is rendered for primitive values
  without characters to escape (objects by a placeholder), \<^verbatim>\<open>is-retry-allowed\<close>
  refuses the codes of a failed name lookup and of an unreachable network, and the validator
  is the check of \<^verbatim>\<open>loosely-validate-event\<close> that an event carries an
  \<^verbatim>\<open>anonymousId\<close> or a \<^verbatim>\<open>userId\<close>.
\<close>

definition example_stringify :: "heap \<Rightarrow> jsval \<Rightarrow> string" where
  "example_stringify h v =
     (case v of
        JUndefined \<Rightarrow> ''undefined''
      | JNull \<Rightarrow> ''null''
      | JBool b \<Rightarrow> (if b then ''true'' else ''false'')
      | JNum n \<Rightarrow> (if n < 0 then ''-'' @ show_nat (nat (- n)) else show_nat (nat n))
      | JStr s \<Rightarrow> [CHR 0x22] @ s @ [CHR 0x22]
      | JRef a \<Rightarrow> ''{}'')"

definition example_validate :: "heap \<Rightarrow> jsval \<Rightarrow> string \<Rightarrow> error option" where
  "example_validate h msg ty =
     (if truthy (get_prop h msg ''anonymousId'') \<or> truthy (get_prop h msg ''userId'')
      then None
      else Some (ValidationError ''You must pass either an anonymousId or a userId.''))"

definition example_env :: env where
  "example_env =
     \<lparr>version = ''1.0.8'',
      nodeVersion = ''18.0.0'',
      JSON_stringify = example_stringify,
      md5 = (\<lambda>s. s),
      uuid = show_nat,
      ms = (\<lambda>s. JNum 1000),
      removeSlash = (\<lambda>s. rev (dropWhile (\<lambda>c. c = CHR ''/'') (rev s))),
      isRetryAllowed = (\<lambda>e. code e \<noteq> Some ''ENOTFOUND'' \<and> code e \<noteq> Some ''ENETUNREACH''),
      looselyValidate = example_validate\<rparr>"

text \<open>
  Four objects of a caller: an event with a numeric \<^verbatim>\<open>userId\<close> and a context of its
  own, that context, an event whose \<^verbatim>\<open>anonymousId\<close> is the number 0, and an event
  without identity.
\<close>

definition example_heap :: heap where
  "example_heap =
     [\<lparr>kind = KObject,
       props = [''event'' \<mapsto> JStr ''Signup'', ''userId'' \<mapsto> JNum 42, ''context'' \<mapsto> JRef 1]\<rparr>,
      \<lparr>kind = KObject,
       props = [''ip'' \<mapsto> JStr ''10.0.0.1'', ''library'' \<mapsto> JStr ''mine'']\<rparr>,
      \<lparr>kind = KObject,
       props = [''event'' \<mapsto> JStr ''Signup'', ''anonymousId'' \<mapsto> JNum 0,
                ''userId'' \<mapsto> JStr ''u1'']\<rparr>,
      \<lparr>kind = KObject, props = [''event'' \<mapsto> JStr ''Signup'']\<rparr>]"

text \<open>
  The client \<^verbatim>\<open>new TheAnalyticsAPI('key')\<close>, the same client after its first flush,
  and the client \<^verbatim>\<open>new TheAnalyticsAPI('key', { enable: false })\<close>.
\<close>

definition example_client :: client where
  "example_client =
     \<lparr>queue = [], writeKey = JStr ''key'', host = default_host, timeout = JBool False,
      flushAt = 20, flushInterval = 10000, flushed = False, enable = True, timer = None\<rparr>"

definition flushed_client :: client where
  "flushed_client = example_client\<lparr>flushed := True\<rparr>"

definition disabled_client :: client where
  "disabled_client = example_client\<lparr>enable := False\<rparr>"

text \<open>
  A client with two records waiting, and the failure of a request that the collector
  answered with status 500.
\<close>

definition queued_client :: client where
  "queued_client =
     flushed_client\<lparr>queue := [\<lparr>message = JRef 4, callback = Fn 1\<rparr>,
                             \<lparr>message = JRef 9, callback = Noop\<rparr>]\<rparr>"

definition server_error :: axios_error where
  "server_error =
     \<lparr>response = Some \<lparr>status = 500, statusText = ''Server Error''\<rparr>,
      code = None,
      err_message = ''Request failed with status code 500''\<rparr>"

text \<open>
  Four more failures: a request that timed out, a connection that was reset, and the
  collector answering 404 and 503.
\<close>

definition timeout_error :: axios_error where
  "timeout_error =
     \<lparr>response = None,
      code = Some ''ECONNABORTED'',
      err_message = ''timeout of 1000ms exceeded''\<rparr>"

definition reset_error :: axios_error where
  "reset_error =
     \<lparr>response = None,
      code = Some ''ECONNRESET'',
      err_message = ''socket hang up''\<rparr>"

definition not_found_error :: axios_error where
  "not_found_error =
     \<lparr>response = Some \<lparr>status = 404, statusText = ''Not Found''\<rparr>,
      code = None,
      err_message = ''Request failed with status code 404''\<rparr>"

definition unavailable_error :: axios_error where
  "unavailable_error =
     \<lparr>response = Some \<lparr>status = 503, statusText = ''Service Unavailable''\<rparr>,
      code = None,
      err_message = ''Request failed with status code 503''\<rparr>"

text \<open>
  A client that flushes at every record and holds an armed timer, with the runtime in
  which that timer is armed.
\<close>

definition eager_client :: client where
  "eager_client = flushed_client\<lparr>flushAt := 1, timer := Some 0\<rparr>"

definition armed_runtime :: runtime where
  "armed_runtime = (fresh_runtime example_heap)\<lparr>timers := [(0, 10000)], next_timer := 1\<rparr>"

text \<open>
  The timer the client holds, if any, is among the armed ones: it has not fired.
\<close>

definition timer_pending :: "client \<times> runtime \<Rightarrow> bool" where
  "timer_pending s =
     (case timer (fst s) of None \<Rightarrow> True | Some h \<Rightarrow> h \<in> fst ` set (timers (snd s)))"

text \<open>
  What holds of a client constructed with write key \<open>wk\<close> in every state it reaches: the
  key stays, \<^verbatim>\<open>flushAt\<close> is at least 1, \<^verbatim>\<open>flushInterval\<close> is truthy, a timer the
  client holds has not fired, a disabled client holds none, and every request issued carries
  the key in its \<^verbatim>\<open>api_key\<close> header.
\<close>

definition client_inv :: "jsval \<Rightarrow> client \<times> runtime \<Rightarrow> bool" where
  "client_inv wk s =
     (writeKey (fst s) = wk \<and> 1 \<le> flushAt (fst s) \<and> flushInterval (fst s) \<noteq> 0
      \<and> timer_pending s
      \<and> (\<not> enable (fst s) \<longrightarrow> timer (fst s) = None)
      \<and> (\<forall>rq \<in> set (sent (snd s)). map_of (headers rq) ''api_key'' = Some wk))"

section \<open>Properties of the heap operations\<close>

lemma length_set_prop [simp]: "length (set_prop h a k v) = length h"
  by (simp add: set_prop_def)

lemma set_prop_append:
  "length h0 \<le> a \<Longrightarrow> set_prop (h0 @ zs) a k v = h0 @ set_prop zs (a - length h0) k v"
  by (auto simp: set_prop_def list_update_append nth_append)

lemma own_props_set_prop:
  "own_props (set_prop h a k v) w =
     (if w = JRef a \<and> a < length h then (own_props h w)(k \<mapsto> v) else own_props h w)"
  by (auto simp: own_props_def set_prop_def split: jsval.splits)

lemma get_prop_set_prop:
  "get_prop (set_prop h a k v) w j =
     (if w = JRef a \<and> j = k \<and> a < length h then v else get_prop h w j)"
  by (auto simp: get_prop_def own_props_set_prop)

lemma own_props_snoc:
  "own_props (h @ [c]) w = (if w = JRef (length h) then props c else own_props h w)"
  by (auto simp: own_props_def nth_append split: jsval.splits)

lemma get_prop_snoc:
  "w \<noteq> JRef (length h) \<Longrightarrow> get_prop (h @ [c]) w k = get_prop h w k"
  by (simp add: get_prop_def own_props_snoc)

lemma isString_set_prop [simp]: "isString (set_prop h a k v) w = isString h w"
  by (auto simp: isString_def set_prop_def nth_list_update split: jsval.splits)

lemma isString_snoc:
  "kind c \<noteq> KString \<Longrightarrow> isString (h @ [c]) w = isString h w"
  by (auto simp: isString_def nth_append split: jsval.splits)

text \<open>The steps of enrichment write to the new object only and allocate after the heap they start from.\<close>

lemma default_timestamp_length: "length h \<le> length (default_timestamp now m h)"
  by (simp add: default_timestamp_def new_Date_def alloc_def)

lemma default_timestamp_ext:
  "length h0 \<le> m \<Longrightarrow> \<exists>zs. default_timestamp now m (h0 @ ys) = h0 @ zs"
  using set_prop_append[of h0 m "ys @ [\<lparr>kind = KDate now, props = Map.empty\<rparr>]"]
  by (simp add: default_timestamp_def new_Date_def alloc_def)

lemma default_timestamp_isString [simp]:
  "isString (default_timestamp now m h) w = isString h w"
  by (simp add: default_timestamp_def new_Date_def alloc_def isString_snoc)

lemma own_props_dangling: "length h \<le> a \<Longrightarrow> own_props h (JRef a) = Map.empty"
  by (simp add: own_props_def)

lemma default_timestamp_own_props:
  "w \<noteq> JRef m \<Longrightarrow> own_props (default_timestamp now m h) w = own_props h w"
  by (simp add: default_timestamp_def new_Date_def alloc_def own_props_set_prop own_props_snoc
      own_props_dangling)

lemma default_timestamp_get_prop:
  "k \<noteq> ''timestamp'' \<Longrightarrow> m < length h \<Longrightarrow>
   get_prop (default_timestamp now m h) (JRef m) k = get_prop h (JRef m) k"
  by (simp add: default_timestamp_def new_Date_def alloc_def get_prop_set_prop get_prop_snoc)

lemma default_messageId_length [simp]: "length (fst (default_messageId env n m h)) = length h"
  by (simp add: default_messageId_def)

lemma default_messageId_ext:
  "length h0 \<le> m \<Longrightarrow> \<exists>zs. fst (default_messageId env n m (h0 @ ys)) = h0 @ zs"
  by (simp add: default_messageId_def set_prop_append)

lemma default_messageId_isString [simp]:
  "isString (fst (default_messageId env n m h)) w = isString h w"
  by (simp add: default_messageId_def)

lemma default_messageId_own_props:
  "w \<noteq> JRef m \<Longrightarrow> own_props (fst (default_messageId env n m h)) w = own_props h w"
  by (simp add: default_messageId_def own_props_set_prop)

lemma default_messageId_get_prop:
  "k \<noteq> ''messageId'' \<Longrightarrow>
   get_prop (fst (default_messageId env n m h)) w k = get_prop h w k"
  by (simp add: default_messageId_def get_prop_set_prop)

lemma coerce_id_length [simp]: "length (coerce_id env k m h) = length h"
  by (simp add: coerce_id_def Let_def)

lemma coerce_id_ext:
  "length h0 \<le> m \<Longrightarrow> \<exists>zs. coerce_id env k m (h0 @ ys) = h0 @ zs"
  by (simp add: coerce_id_def Let_def set_prop_append)

lemma coerce_id_isString [simp]: "isString (coerce_id env k m h) w = isString h w"
  by (simp add: coerce_id_def Let_def)

lemma coerce_id_own_props:
  "w \<noteq> JRef m \<Longrightarrow> own_props (coerce_id env k m h) w = own_props h w"
  by (simp add: coerce_id_def Let_def own_props_set_prop)

lemma coerce_id_get_other:
  "j \<noteq> k \<Longrightarrow> get_prop (coerce_id env k m h) w j = get_prop h w j"
  by (simp add: coerce_id_def Let_def get_prop_set_prop)

lemma coerce_id_get:
  "m < length h \<Longrightarrow>
   get_prop (coerce_id env k m h) (JRef m) k =
     (if truthy (get_prop h (JRef m) k) \<and> \<not> isString h (get_prop h (JRef m) k)
      then JStr (JSON_stringify env h (get_prop h (JRef m) k))
      else get_prop h (JRef m) k)"
  by (simp add: coerce_id_def Let_def get_prop_set_prop)

lemma own_props_allocated_append:
  "allocated h w \<Longrightarrow> own_props (h @ zs) w = own_props h w"
  by (auto simp: allocated_def own_props_def nth_append split: jsval.splits)

lemma get_prop_new_cell:
  "get_prop (h @ [c]) (JRef (length h)) k = (case props c k of Some x \<Rightarrow> x | None \<Rightarrow> JUndefined)"
  by (simp add: get_prop_def own_props_snoc)

lemma copy_and_merge_facts:
  assumes cm: "copy_and_merge env ty msg h0 = (m, h7)"
  shows cm_addr: "m = length h0"
    and cm_ext: "\<exists>zs. h7 = h0 @ zs"
    and cm_length: "length h7 = Suc (Suc (Suc (Suc m)))"
    and cm_isString: "isString h7 w = isString h0 w"
    and cm_get: "k \<noteq> ''type'' \<Longrightarrow> k \<noteq> ''context'' \<Longrightarrow> k \<noteq> ''_metadata'' \<Longrightarrow>
                get_prop h7 (JRef m) k = get_prop h0 msg k"
    and cm_context: "get_prop h7 (JRef m) ''context'' = JRef (Suc (Suc m))"
    and cm_metadata: "get_prop h7 (JRef m) ''_metadata'' = JRef (Suc (Suc (Suc m)))"
    and cm_library: "own_props h7 (JRef (Suc m)) =
             [''name'' \<mapsto> JStr ''theanalyticsapi'', ''version'' \<mapsto> JStr (version env)]"
    and cm_ctx_props: "allocated h0 (get_prop h0 msg ''context'') \<Longrightarrow>
              own_props h7 (JRef (Suc (Suc m))) =
                [''library'' \<mapsto> JRef (Suc m)] ++ own_props h0 (get_prop h0 msg ''context'')"
    and cm_md_props: "allocated h0 (get_prop h0 msg ''_metadata'') \<Longrightarrow>
              own_props h7 (JRef (Suc (Suc (Suc m)))) =
                [''nodeVersion'' \<mapsto> JStr (nodeVersion env)]
                  ++ own_props h0 (get_prop h0 msg ''_metadata'')"
proof -
  define m0 where "m0 = length h0"
  define h1 where "h1 = h0 @ [\<lparr>kind = KObject, props = own_props h0 msg\<rparr>]"
  define h2 where "h2 = set_prop h1 m0 ''type'' (JStr ty)"
  define h3 where "h3 = h2 @ [\<lparr>kind = KObject,
     props = [''name'' \<mapsto> JStr ''theanalyticsapi'', ''version'' \<mapsto> JStr (version env)]\<rparr>]"
  define cv where "cv = get_prop h3 (JRef m0) ''context''"
  define h4 where "h4 = h3 @ [\<lparr>kind = KObject, props = [''library'' \<mapsto> JRef (Suc m0)] ++ own_props h3 cv\<rparr>]"
  define h5 where "h5 = set_prop h4 m0 ''context'' (JRef (Suc (Suc m0)))"
  define mv where "mv = get_prop h5 (JRef m0) ''_metadata''"
  define h6 where "h6 = h5 @ [\<lparr>kind = KObject,
     props = [''nodeVersion'' \<mapsto> JStr (nodeVersion env)] ++ own_props h5 mv\<rparr>]"
  define g7 where "g7 = set_prop h6 m0 ''_metadata'' (JRef (Suc (Suc (Suc m0))))"
  have len: "length h0 = m0" "length h1 = Suc m0" "length h2 = Suc m0" "length h3 = Suc (Suc m0)"
    "length h4 = Suc (Suc (Suc m0))" "length h5 = Suc (Suc (Suc m0))"
    "length h6 = Suc (Suc (Suc (Suc m0)))" "length g7 = Suc (Suc (Suc (Suc m0)))"
    by (simp_all add: h1_def h2_def h3_def h4_def h5_def h6_def g7_def m0_def)
  have eq: "copy_and_merge env ty msg h0 = (m0, g7)"
    using len
    by (simp add: copy_and_merge_def Object_assign_def alloc_def Let_def split_def
        h1_def h2_def h3_def h4_def h5_def h6_def g7_def cv_def mv_def m0_def)
  with cm have mm: "m = m0" and hh: "h7 = g7" by simp_all
  show "m = length h0" by (simp add: mm m0_def)
  have e1: "h1 = h0 @ [\<lparr>kind = KObject, props = own_props h0 msg\<rparr>]" by (simp add: h1_def)
  have e2: "\<exists>zs. h2 = h0 @ zs"
    unfolding h2_def e1 using set_prop_append[of h0 m0] len(1) by simp
  then obtain z2 where z2: "h2 = h0 @ z2" ..
  have e3: "h3 = h0 @ (z2 @ [\<lparr>kind = KObject,
     props = [''name'' \<mapsto> JStr ''theanalyticsapi'', ''version'' \<mapsto> JStr (version env)]\<rparr>])"
    by (simp add: h3_def z2)
  have e4: "\<exists>zs. h4 = h0 @ zs" unfolding h4_def e3 by simp
  then obtain z4 where z4: "h4 = h0 @ z4" ..
  have e5: "\<exists>zs. h5 = h0 @ zs"
    unfolding h5_def z4 using set_prop_append[of h0 m0 z4] len(1) by simp
  then obtain z5 where z5: "h5 = h0 @ z5" ..
  have e6: "h6 = h0 @ (z5 @ [\<lparr>kind = KObject,
     props = [''nodeVersion'' \<mapsto> JStr (nodeVersion env)] ++ own_props h5 mv\<rparr>])"
    by (simp add: h6_def z5)
  show "\<exists>zs. h7 = h0 @ zs"
    unfolding hh g7_def e6 using set_prop_append[of h0 m0] len(1) by simp
  show "length h7 = Suc (Suc (Suc (Suc m)))" using len by (simp add: hh mm)
  show "isString h7 w = isString h0 w"
  proof -
    have "\<And>w. isString h1 w = isString h0 w" by (simp add: h1_def isString_snoc)
    moreover have "\<And>w. isString h3 w = isString h1 w" by (simp add: h3_def h2_def isString_snoc)
    moreover have "\<And>w. isString h5 w = isString h3 w" by (simp add: h5_def h4_def isString_snoc)
    moreover have "\<And>w. isString g7 w = isString h5 w" by (simp add: g7_def h6_def isString_snoc)
    ultimately show ?thesis by (simp add: hh)
  qed
  have g1: "\<And>k. get_prop h1 (JRef m0) k = get_prop h0 msg k"
    using len(1) by (simp add: h1_def get_prop_def own_props_snoc)
  have g3: "\<And>k. k \<noteq> ''type'' \<Longrightarrow> get_prop h3 (JRef m0) k = get_prop h0 msg k"
    using len g1 by (simp add: h3_def h2_def get_prop_set_prop get_prop_snoc)
  have g5: "\<And>k. k \<noteq> ''type'' \<Longrightarrow> k \<noteq> ''context'' \<Longrightarrow>
      get_prop h5 (JRef m0) k = get_prop h0 msg k"
    using len g3 by (simp add: h5_def h4_def get_prop_set_prop get_prop_snoc)
  show "k \<noteq> ''type'' \<Longrightarrow> k \<noteq> ''context'' \<Longrightarrow> k \<noteq> ''_metadata'' \<Longrightarrow>
                get_prop h7 (JRef m) k = get_prop h0 msg k"
    using len g5 by (simp add: hh mm g7_def h6_def get_prop_set_prop get_prop_snoc)
  have cv: "cv = get_prop h0 msg ''context''"
    using g3 by (simp add: cv_def)
  have mv: "mv = get_prop h0 msg ''_metadata''"
    using g5 by (simp add: mv_def)
  have c5: "get_prop h5 (JRef m0) ''context'' = JRef (Suc (Suc m0))"
    using len by (simp add: h5_def get_prop_set_prop)
  show "get_prop h7 (JRef m) ''context'' = JRef (Suc (Suc m))"
    using len c5 by (simp add: hh mm g7_def h6_def get_prop_set_prop get_prop_snoc)
  show "get_prop h7 (JRef m) ''_metadata'' = JRef (Suc (Suc (Suc m)))"
    using len by (simp add: hh mm g7_def get_prop_set_prop)
  have l3: "own_props h3 (JRef (Suc m0)) =
             [''name'' \<mapsto> JStr ''theanalyticsapi'', ''version'' \<mapsto> JStr (version env)]"
    using len by (simp add: h3_def own_props_snoc)
  have l5: "own_props h5 (JRef (Suc m0)) = own_props h3 (JRef (Suc m0))"
    using len by (simp add: h5_def h4_def own_props_set_prop own_props_snoc)
  show "own_props h7 (JRef (Suc m)) =
             [''name'' \<mapsto> JStr ''theanalyticsapi'', ''version'' \<mapsto> JStr (version env)]"
    using len l3 l5 by (simp add: hh mm g7_def h6_def own_props_set_prop own_props_snoc)
  have x5: "own_props h5 (JRef (Suc (Suc m0))) = [''library'' \<mapsto> JRef (Suc m0)] ++ own_props h3 cv"
    using len by (simp add: h5_def h4_def own_props_set_prop own_props_snoc)
  have x7: "own_props g7 (JRef (Suc (Suc m0))) = [''library'' \<mapsto> JRef (Suc m0)] ++ own_props h3 cv"
    using len x5 by (simp add: g7_def h6_def own_props_set_prop own_props_snoc)
  have y7: "own_props g7 (JRef (Suc (Suc (Suc m0)))) =
      [''nodeVersion'' \<mapsto> JStr (nodeVersion env)] ++ own_props h5 mv"
    using len by (simp add: g7_def h6_def own_props_set_prop own_props_snoc)
  have a3: "allocated h0 cv \<Longrightarrow> own_props h3 cv = own_props h0 cv"
    unfolding e3 by (rule own_props_allocated_append)
  have a5: "allocated h0 mv \<Longrightarrow> own_props h5 mv = own_props h0 mv"
    unfolding z5 by (rule own_props_allocated_append)
  show "allocated h0 (get_prop h0 msg ''context'') \<Longrightarrow>
              own_props h7 (JRef (Suc (Suc m))) =
                [''library'' \<mapsto> JRef (Suc m)] ++ own_props h0 (get_prop h0 msg ''context'')"
    using x7 a3 cv by (simp add: hh mm)
  show "allocated h0 (get_prop h0 msg ''_metadata'') \<Longrightarrow>
              own_props h7 (JRef (Suc (Suc (Suc m)))) =
                [''nodeVersion'' \<mapsto> JStr (nodeVersion env)]
                  ++ own_props h0 (get_prop h0 msg ''_metadata'')"
    using y7 a5 mv by (simp add: hh mm)
qed

text \<open>The heap enrichment ends with, spelled out from the end of the merges.\<close>

lemma enrich_eq:
  assumes "copy_and_merge env ty msg (heap r) = (m, h7)"
  shows "enrich env ty msg r =
           (m, r\<lparr>heap := coerce_id env ''userId'' m (coerce_id env ''anonymousId'' m
                   (fst (default_messageId env (entropy r) m (default_timestamp (clock r) m h7)))),
                 entropy := snd (default_messageId env (entropy r) m
                   (default_timestamp (clock r) m h7))\<rparr>)"
  using assms by (simp add: enrich_def Let_def split_def)

text \<open>
  What enrichment leaves behind, for an event \<open>msg\<close> enriched on the heap of \<open>r\<close>: the
  record is a new object, the old objects are as they were, and the fields of the record
  are as follows.
\<close>

lemma enrich_facts:
  assumes en: "enrich env ty msg r = (m, r1)"
  shows en_addr: "m = length (heap r)"
    and en_runtime: "\<exists>h n. r1 = r\<lparr>heap := h, entropy := n\<rparr>"
    and en_ext: "\<exists>zs. heap r1 = heap r @ zs"
    and en_isString: "isString (heap r1) w = isString (heap r) w"
    and en_context: "get_prop (heap r1) (JRef m) ''context'' = JRef (Suc (Suc m))"
    and en_metadata: "get_prop (heap r1) (JRef m) ''_metadata'' = JRef (Suc (Suc (Suc m)))"
    and en_library: "own_props (heap r1) (JRef (Suc m)) =
           [''name'' \<mapsto> JStr ''theanalyticsapi'', ''version'' \<mapsto> JStr (version env)]"
    and en_ctx_props: "allocated (heap r) (get_prop (heap r) msg ''context'') \<Longrightarrow>
           own_props (heap r1) (JRef (Suc (Suc m))) =
             [''library'' \<mapsto> JRef (Suc m)] ++ own_props (heap r) (get_prop (heap r) msg ''context'')"
    and en_md_props: "allocated (heap r) (get_prop (heap r) msg ''_metadata'') \<Longrightarrow>
           own_props (heap r1) (JRef (Suc (Suc (Suc m)))) =
             [''nodeVersion'' \<mapsto> JStr (nodeVersion env)]
               ++ own_props (heap r) (get_prop (heap r) msg ''_metadata'')"
    and en_coerced: "k = ''anonymousId'' \<or> k = ''userId'' \<Longrightarrow>
           truthy (get_prop (heap r) msg k) \<Longrightarrow> \<not> isString (heap r) (get_prop (heap r) msg k) \<Longrightarrow>
           \<exists>zs. get_prop (heap r1) (JRef m) k =
                   JStr (JSON_stringify env (heap r @ zs) (get_prop (heap r) msg k))"
    and en_kept: "k = ''anonymousId'' \<or> k = ''userId'' \<Longrightarrow>
           \<not> (truthy (get_prop (heap r) msg k) \<and> \<not> isString (heap r) (get_prop (heap r) msg k)) \<Longrightarrow>
           get_prop (heap r1) (JRef m) k = get_prop (heap r) msg k"
    and en_id_string: "k = ''anonymousId'' \<or> k = ''userId'' \<Longrightarrow>
           truthy (get_prop (heap r1) (JRef m) k) \<Longrightarrow>
           isString (heap r1) (get_prop (heap r1) (JRef m) k)"
proof -
  obtain m0 h7 where cm: "copy_and_merge env ty msg (heap r) = (m0, h7)"
    by (cases "copy_and_merge env ty msg (heap r)")
  define h8 where "h8 = default_timestamp (clock r) m0 h7"
  define h9 where "h9 = fst (default_messageId env (entropy r) m0 h8)"
  define h10 where "h10 = coerce_id env ''anonymousId'' m0 h9"
  define h11 where "h11 = coerce_id env ''userId'' m0 h10"
  from enrich_eq[OF cm] en
  have pr: "(m, r1) = (m0, r\<lparr>heap := h11, entropy := snd (default_messageId env (entropy r) m0 h8)\<rparr>)"
    by (simp add: h8_def h9_def h10_def h11_def)
  from pr have mm: "m = m0" by simp
  from pr have rr: "r1 = r\<lparr>heap := h11, entropy := snd (default_messageId env (entropy r) m0 h8)\<rparr>"
    by simp
  then have hp: "heap r1 = h11" by simp
  show "m = length (heap r)" using cm_addr[OF cm] mm by simp
  show "\<exists>h n. r1 = r\<lparr>heap := h, entropy := n\<rparr>" using rr by blast
  have le: "length (heap r) \<le> m0" using cm_addr[OF cm] by simp
  from cm_ext[OF cm] obtain z7 where z7: "h7 = heap r @ z7" ..
  obtain z8 where z8: "h8 = heap r @ z8"
    unfolding h8_def z7 using default_timestamp_ext[OF le] by blast
  obtain z9 where z9: "h9 = heap r @ z9"
    unfolding h9_def z8 using default_messageId_ext[OF le] by blast
  obtain z10 where z10: "h10 = heap r @ z10"
    unfolding h10_def z9 using coerce_id_ext[OF le] by blast
  obtain z11 where z11: "h11 = heap r @ z11"
    unfolding h11_def z10 using coerce_id_ext[OF le] by blast
  show "\<exists>zs. heap r1 = heap r @ zs" using z11 hp by blast
  have s9: "\<And>w. isString h9 w = isString (heap r) w"
    using cm_isString[OF cm] by (simp add: h9_def h8_def)
  have s10: "\<And>w. isString h10 w = isString (heap r) w" using s9 by (simp add: h10_def)
  have s11: "\<And>w. isString h11 w = isString (heap r) w" using s10 by (simp add: h11_def)
  show "isString (heap r1) w = isString (heap r) w" using s11 hp by simp
  have lt7: "m0 < length h7" using cm_length[OF cm] by simp
  have lt9: "m0 < length h9"
    using lt7 default_timestamp_length[of h7 "clock r" m0] by (simp add: h9_def h8_def)
  have lt10: "m0 < length h10" using lt9 by (simp add: h10_def)
  show "get_prop (heap r1) (JRef m) ''context'' = JRef (Suc (Suc m))"
    using cm_context[OF cm] lt7
    by (simp add: hp mm h11_def h10_def h9_def h8_def coerce_id_get_other
        default_messageId_get_prop default_timestamp_get_prop)
  show "get_prop (heap r1) (JRef m) ''_metadata'' = JRef (Suc (Suc (Suc m)))"
    using cm_metadata[OF cm] lt7
    by (simp add: hp mm h11_def h10_def h9_def h8_def coerce_id_get_other
        default_messageId_get_prop default_timestamp_get_prop)
  have keep: "\<And>a. a \<noteq> m0 \<Longrightarrow> own_props h11 (JRef a) = own_props h7 (JRef a)"
    by (simp add: h11_def h10_def h9_def h8_def coerce_id_own_props default_messageId_own_props
        default_timestamp_own_props)
  show "own_props (heap r1) (JRef (Suc m)) =
           [''name'' \<mapsto> JStr ''theanalyticsapi'', ''version'' \<mapsto> JStr (version env)]"
    using cm_library[OF cm] keep[of "Suc m0"] by (simp add: mm hp)
  show "allocated (heap r) (get_prop (heap r) msg ''context'') \<Longrightarrow>
           own_props (heap r1) (JRef (Suc (Suc m))) =
             [''library'' \<mapsto> JRef (Suc m)] ++ own_props (heap r) (get_prop (heap r) msg ''context'')"
    using cm_ctx_props[OF cm] keep[of "Suc (Suc m0)"] by (simp add: mm hp)
  show "allocated (heap r) (get_prop (heap r) msg ''_metadata'') \<Longrightarrow>
           own_props (heap r1) (JRef (Suc (Suc (Suc m)))) =
             [''nodeVersion'' \<mapsto> JStr (nodeVersion env)]
               ++ own_props (heap r) (get_prop (heap r) msg ''_metadata'')"
    using cm_md_props[OF cm] keep[of "Suc (Suc (Suc m0))"] by (simp add: mm hp)
  have fin: "get_prop h11 (JRef m0) k =
      (if truthy (get_prop (heap r) msg k) \<and> \<not> isString (heap r) (get_prop (heap r) msg k)
       then JStr (JSON_stringify env (if k = ''anonymousId'' then h9 else h10)
              (get_prop (heap r) msg k))
       else get_prop (heap r) msg k)"
    if k: "k = ''anonymousId'' \<or> k = ''userId''" for k
  proof -
    define v where "v = get_prop (heap r) msg k"
    have v7: "get_prop h7 (JRef m0) k = v"
      using cm_get[OF cm, of k] k by (auto simp: v_def)
    have v9: "get_prop h9 (JRef m0) k = v"
      using v7 k lt7
      by (auto simp: h9_def h8_def default_messageId_get_prop default_timestamp_get_prop)
    show ?thesis
    proof (cases "k = ''anonymousId''")
      case True
      have "get_prop h11 (JRef m0) k = get_prop h10 (JRef m0) k"
        using True by (simp add: h11_def coerce_id_get_other)
      also have "\<dots> = (if truthy v \<and> \<not> isString h9 v then JStr (JSON_stringify env h9 v) else v)"
        using coerce_id_get[OF lt9, of env k] v9 True by (simp add: h10_def)
      finally show ?thesis using True s9 by (simp add: v_def)
    next
      case False
      then have ku: "k = ''userId''" using k by simp
      have "get_prop h10 (JRef m0) k = v"
        using v9 ku by (simp add: h10_def coerce_id_get_other)
      then have "get_prop h11 (JRef m0) k =
          (if truthy v \<and> \<not> isString h10 v then JStr (JSON_stringify env h10 v) else v)"
        using coerce_id_get[OF lt10, of env k] ku by (simp add: h11_def)
      then show ?thesis using False s10 by (simp add: v_def)
    qed
  qed
  show "k = ''anonymousId'' \<or> k = ''userId'' \<Longrightarrow>
           truthy (get_prop (heap r) msg k) \<Longrightarrow> \<not> isString (heap r) (get_prop (heap r) msg k) \<Longrightarrow>
           \<exists>zs. get_prop (heap r1) (JRef m) k =
                   JStr (JSON_stringify env (heap r @ zs) (get_prop (heap r) msg k))"
    using fin[of k] z9 z10 by (cases "k = ''anonymousId''") (auto simp: hp mm)
  show "k = ''anonymousId'' \<or> k = ''userId'' \<Longrightarrow>
           \<not> (truthy (get_prop (heap r) msg k) \<and> \<not> isString (heap r) (get_prop (heap r) msg k)) \<Longrightarrow>
           get_prop (heap r1) (JRef m) k = get_prop (heap r) msg k"
    using fin[of k] by (auto simp: hp mm)
  show "k = ''anonymousId'' \<or> k = ''userId'' \<Longrightarrow>
           truthy (get_prop (heap r1) (JRef m) k) \<Longrightarrow>
           isString (heap r1) (get_prop (heap r1) (JRef m) k)"
    using fin[of k] s11 by (auto simp: hp mm isString_def split: if_splits)
qed

section \<open>Flush and enqueue, case by case\<close>

lemma clear_timer_eq:
  "clear_timer (c, r) =
     (c\<lparr>timer := None\<rparr>, case timer c of Some h \<Rightarrow> clearTimeout h r | None \<Rightarrow> r)"
proof (cases "timer c")
  case None
  then have "c\<lparr>timer := None\<rparr> = c" by (cases c) simp
  then show ?thesis using None by (simp add: clear_timer_def)
next
  case (Some h)
  then show ?thesis by (simp add: clear_timer_def)
qed

lemma cleared_fields [simp]:
  "heap (case t of Some h \<Rightarrow> clearTimeout h r | None \<Rightarrow> r) = heap r"
  "clock (case t of Some h \<Rightarrow> clearTimeout h r | None \<Rightarrow> r) = clock r"
  "sent (case t of Some h \<Rightarrow> clearTimeout h r | None \<Rightarrow> r) = sent r"
  "inflight (case t of Some h \<Rightarrow> clearTimeout h r | None \<Rightarrow> r) = inflight r"
  "immediates (case t of Some h \<Rightarrow> clearTimeout h r | None \<Rightarrow> r) = immediates r"
  "trace (case t of Some h \<Rightarrow> clearTimeout h r | None \<Rightarrow> r) = trace r"
  "next_timer (case t of Some h \<Rightarrow> clearTimeout h r | None \<Rightarrow> r) = next_timer r"
  "set (timers (case t of Some h \<Rightarrow> clearTimeout h r | None \<Rightarrow> r)) \<subseteq> set (timers r)"
  by (auto simp: clearTimeout_def split: option.splits)

lemma make_request_update [simp]:
  "make_request env (c\<lparr>queue := q\<rparr>) = make_request env c"
  "make_request env (c\<lparr>timer := t\<rparr>) = make_request env c"
  "make_request env (c\<lparr>flushed := b\<rparr>) = make_request env c"
  by (simp_all add: make_request_def fun_eq_iff)

lemma or_noop_simps [simp]: "or_noop None = Noop" "or_noop (Some f) = f"
  by (simp_all add: or_noop_def)

lemma axios_fields [simp]:
  "heap (axios rq cbs cb r) = heap r"
  "clock (axios rq cbs cb r) = clock r"
  "timers (axios rq cbs cb r) = timers r"
  "next_timer (axios rq cbs cb r) = next_timer r"
  "immediates (axios rq cbs cb r) = immediates r"
  "trace (axios rq cbs cb r) = trace r"
  "sent (axios rq cbs cb r) = sent r @ [rq]"
  "inflight (axios rq cbs cb r) =
     inflight r @ [\<lparr>req = rq, callbacks = cbs, flush_callback = cb\<rparr>]"
  by (simp_all add: axios_def)

lemma setImmediate_fields [simp]:
  "heap (setImmediate cb r) = heap r"
  "clock (setImmediate cb r) = clock r"
  "timers (setImmediate cb r) = timers r"
  "next_timer (setImmediate cb r) = next_timer r"
  "immediates (setImmediate cb r) = immediates r @ [cb]"
  "trace (setImmediate cb r) = trace r"
  "sent (setImmediate cb r) = sent r"
  "inflight (setImmediate cb r) = inflight r"
  by (simp_all add: setImmediate_def)

lemma flush_disabled:
  "\<not> enable c \<Longrightarrow> flush env cb (c, r) = (c, setImmediate (or_noop cb) r)"
  by simp

lemma flush_empty:
  "enable c \<Longrightarrow> queue c = [] \<Longrightarrow>
   flush env cb (c, r) =
     (c\<lparr>timer := None\<rparr>,
      setImmediate (or_noop cb) (case timer c of Some h \<Rightarrow> clearTimeout h r | None \<Rightarrow> r))"
  by (simp add: clear_timer_eq)

lemma flush_nonempty:
  "enable c \<Longrightarrow> queue c \<noteq> [] \<Longrightarrow>
   flush env cb (c, r) =
     (c\<lparr>timer := None, queue := drop (nat (flushAt c)) (queue c)\<rparr>,
      axios (make_request env c (clock r) (take (nat (flushAt c)) (queue c)))
        (map callback (take (nat (flushAt c)) (queue c))) (or_noop cb)
        (case timer c of Some h \<Rightarrow> clearTimeout h r | None \<Rightarrow> r))"
  by (simp add: clear_timer_eq Let_def)

declare flush.simps [simp del]

lemma enqueue_disabled:
  "\<not> enable c \<Longrightarrow> enqueue env ty msg cb (c, r) = (c, setImmediate (or_noop cb) r)"
  by simp

lemma enqueue_first:
  "enable c \<Longrightarrow> \<not> flushed c \<Longrightarrow> enrich env ty msg r = (m, r1) \<Longrightarrow>
   enqueue env ty msg cb (c, r) =
     flush env None
       (c\<lparr>queue := queue c @ [\<lparr>message = JRef m, callback = or_noop cb\<rparr>], flushed := True\<rparr>, r1)"
  by (simp add: Let_def)

lemma enqueue_below:
  "enable c \<Longrightarrow> flushed c \<Longrightarrow> enrich env ty msg r = (m, r1) \<Longrightarrow>
   \<not> flushAt c \<le> int (length (queue c)) + 1 \<Longrightarrow>
   c1 = c\<lparr>queue := queue c @ [\<lparr>message = JRef m, callback = or_noop cb\<rparr>]\<rparr> \<Longrightarrow>
   enqueue env ty msg cb (c, r) =
     (if flushInterval c \<noteq> 0 \<and> timer c = None
      then (c1\<lparr>timer := Some (next_timer r1)\<rparr>,
            r1\<lparr>timers := timers r1 @ [(next_timer r1, flushInterval c)],
               next_timer := Suc (next_timer r1)\<rparr>)
      else (c1, r1))"
  by (simp add: Let_def setTimeout_def)

lemma enqueue_reaching:
  assumes "enable c" "flushed c" and en: "enrich env ty msg r = (m, r1)"
    and sz: "flushAt c \<le> int (length (queue c)) + 1"
    and q1: "q1 = queue c @ [\<lparr>message = JRef m, callback = or_noop cb\<rparr>]"
    and c2: "c2 = c\<lparr>queue := drop (nat (flushAt c)) q1, timer := None\<rparr>"
    and r2: "r2 = axios (make_request env c (clock r1) (take (nat (flushAt c)) q1))
          (map callback (take (nat (flushAt c)) q1)) Noop
          (case timer c of Some h \<Rightarrow> clearTimeout h r1 | None \<Rightarrow> r1)"
  shows "enqueue env ty msg cb (c, r) =
     (if flushInterval c \<noteq> 0
      then (c2\<lparr>timer := Some (next_timer r1)\<rparr>,
            r2\<lparr>timers := timers r2 @ [(next_timer r1, flushInterval c)],
               next_timer := Suc (next_timer r1)\<rparr>)
      else (c2, r2))"
proof -
  have f: "flush env None (c\<lparr>queue := q1\<rparr>, r1) = (c2, r2)"
    using assms(1) by (simp add: flush_nonempty q1 c2 r2)
  have t2: "timer c2 = None" "flushInterval c2 = flushInterval c" "next_timer r2 = next_timer r1"
    by (simp_all add: c2 r2)
  show ?thesis
    using assms(1,2) en sz f t2
    by (simp add: enqueue.simps Let_def setTimeout_def q1[symmetric])
qed

declare enqueue.simps [simp del]

lemma take_min_length: "take (min (length xs) k) xs = take k xs"
  by (cases "k \<le> length xs") (simp_all add: min_def)

lemma drop_min_length: "drop (min (length xs) k) xs = drop k xs"
  by (cases "k \<le> length xs") (simp_all add: min_def)

text \<open>The event loop runs the scheduled callbacks oldest first, each without arguments.\<close>

lemma run_immediates:
  "(run_immediate ^^ n) r =
     r\<lparr>immediates := drop n (immediates r),
       trace := trace r @ map (\<lambda>f. Invoke f []) (take n (immediates r))\<rparr>"
proof (induction n)
  case 0
  show ?case by simp
next
  case (Suc n)
  have "(run_immediate ^^ Suc n) r = run_immediate ((run_immediate ^^ n) r)" by simp
  also have "\<dots> = run_immediate (r\<lparr>immediates := drop n (immediates r),
       trace := trace r @ map (\<lambda>f. Invoke f []) (take n (immediates r))\<rparr>)"
    by (simp only: Suc)
  also have "\<dots> = r\<lparr>immediates := drop (Suc n) (immediates r),
       trace := trace r @ map (\<lambda>f. Invoke f []) (take (Suc n) (immediates r))\<rparr>"
  proof (cases "n < length (immediates r)")
    case True
    then have d: "drop n (immediates r) = immediates r ! n # drop (Suc n) (immediates r)"
      by (simp add: Cons_nth_drop_Suc)
    show ?thesis using True
      by (simp add: run_immediate_def d take_Suc_conv_app_nth)
  next
    case False
    then show ?thesis by (simp add: run_immediate_def)
  qed
  finally show ?case .
qed

lemma fresh_runtime_simps [simp]:
  "heap (fresh_runtime h) = h" "sent (fresh_runtime h) = []" "inflight (fresh_runtime h) = []"
  "timers (fresh_runtime h) = []" "immediates (fresh_runtime h) = []"
  "trace (fresh_runtime h) = []" "next_timer (fresh_runtime h) = 0" "clock (fresh_runtime h) = 0"
  by (simp_all add: fresh_runtime_def)

lemma enrich_runtime_fields:
  assumes "enrich env ty msg r = (m, r1)"
  shows "sent r1 = sent r \<and> clock r1 = clock r \<and> timers r1 = timers r
       \<and> next_timer r1 = next_timer r \<and> inflight r1 = inflight r
       \<and> immediates r1 = immediates r \<and> trace r1 = trace r"
proof -
  from en_runtime[OF assms] obtain h n where "r1 = r\<lparr>heap := h, entropy := n\<rparr>" by blast
  then show ?thesis by simp
qed

lemma clearTimeout_fields [simp]:
  "heap (clearTimeout h r) = heap r"
  "clock (clearTimeout h r) = clock r"
  "next_timer (clearTimeout h r) = next_timer r"
  "immediates (clearTimeout h r) = immediates r"
  "trace (clearTimeout h r) = trace r"
  "sent (clearTimeout h r) = sent r"
  "inflight (clearTimeout h r) = inflight r"
  "timers (clearTimeout h r) = filter (\<lambda>t. fst t \<noteq> h) (timers r)"
  by (simp_all add: clearTimeout_def)

text \<open>What a flush does to each field, in all three of its cases.\<close>

lemma flush_client_fields [simp]:
  "writeKey (fst (flush env cb (c, r))) = writeKey c"
  "host (fst (flush env cb (c, r))) = host c"
  "timeout (fst (flush env cb (c, r))) = timeout c"
  "flushAt (fst (flush env cb (c, r))) = flushAt c"
  "flushInterval (fst (flush env cb (c, r))) = flushInterval c"
  "flushed (fst (flush env cb (c, r))) = flushed c"
  "enable (fst (flush env cb (c, r))) = enable c"
  "timer (fst (flush env cb (c, r))) = (if enable c then None else timer c)"
  "queue (fst (flush env cb (c, r))) =
     (if enable c then drop (nat (flushAt c)) (queue c) else queue c)"
  by (cases "enable c"; cases "queue c = []";
      simp add: flush_disabled flush_empty flush_nonempty)+

lemma flush_runtime_fields [simp]:
  "heap (snd (flush env cb (c, r))) = heap r"
  "clock (snd (flush env cb (c, r))) = clock r"
  "next_timer (snd (flush env cb (c, r))) = next_timer r"
  "trace (snd (flush env cb (c, r))) = trace r"
  "timers (snd (flush env cb (c, r))) =
     (if enable c
      then (case timer c of Some h \<Rightarrow> filter (\<lambda>t. fst t \<noteq> h) (timers r) | None \<Rightarrow> timers r)
      else timers r)"
  "sent (snd (flush env cb (c, r))) =
     sent r @ (if enable c \<and> queue c \<noteq> []
               then [make_request env c (clock r) (take (nat (flushAt c)) (queue c))]
               else [])"
  by (cases "enable c"; cases "queue c = []"; cases "timer c";
      simp add: flush_disabled flush_empty flush_nonempty)+

lemma take_single: "0 < n \<Longrightarrow> take n [x] = [x]"
  by (cases n) simp_all

text \<open>
  The record an enabled client enqueues is the enriched one, and it is in the queue or in
  the batch of a request of the same call.
\<close>

lemma enqueue_record:
  assumes en: "enable c" and er: "enrich env ty msg r = (m, r1)"
  shows "heap (snd (enqueue env ty msg cb (c, r))) = heap r1"
    and "\<exists>new. sent (snd (enqueue env ty msg cb (c, r))) = sent r @ new
           \<and> concat (map (\<lambda>q. batch (data q)) new)
               @ map message (queue (fst (enqueue env ty msg cb (c, r))))
             = map message (queue c) @ [JRef m]"
proof -
  note rf = enrich_runtime_fields[OF er]
  have td: "map message (take n q) @ map message (drop n q) = map message q" for n and q :: "entry list"
    by (simp flip: map_append)
  have "heap (snd (enqueue env ty msg cb (c, r))) = heap r1
    \<and> (\<exists>new. sent (snd (enqueue env ty msg cb (c, r))) = sent r @ new
           \<and> concat (map (\<lambda>q. batch (data q)) new)
               @ map message (queue (fst (enqueue env ty msg cb (c, r))))
             = map message (queue c) @ [JRef m])"
  proof (cases "flushed c")
    case False
    show ?thesis using rf td[of "nat (flushAt c)" "queue c @ [\<lparr>message = JRef m, callback = or_noop cb\<rparr>]"]
      by (simp add: enqueue_first[OF en False er] make_request_def)
  next
    case fl: True
    show ?thesis
    proof (cases "flushAt c \<le> int (length (queue c)) + 1")
      case sz: True
      show ?thesis using rf td[of "nat (flushAt c)" "queue c @ [\<lparr>message = JRef m, callback = or_noop cb\<rparr>]"]
        by (simp add: enqueue_reaching[OF en fl er sz refl refl refl] make_request_def)
    next
      case sz: False
      show ?thesis using rf
        by (simp add: enqueue_below[OF en fl er sz refl])
    qed
  qed
  then show "heap (snd (enqueue env ty msg cb (c, r))) = heap r1"
    and "\<exists>new. sent (snd (enqueue env ty msg cb (c, r))) = sent r @ new
           \<and> concat (map (\<lambda>q. batch (data q)) new)
               @ map message (queue (fst (enqueue env ty msg cb (c, r))))
             = map message (queue c) @ [JRef m]"
    by simp_all
qed

section \<open>Invariants of a run\<close>

lemma make_request_api_key [simp]:
  "map_of (headers (make_request env c now items)) ''api_key'' = Some (writeKey c)"
  by (simp add: make_request_def)

lemma flush_inv: "client_inv wk (c, r) \<Longrightarrow> client_inv wk (flush env cb (c, r))"
  by (auto simp: client_inv_def timer_pending_def split: option.splits)

lemma enqueue_inv:
  assumes "client_inv wk (c, r)"
  shows "client_inv wk (enqueue env ty msg cb (c, r))"
proof (cases "enable c")
  case False
  then show ?thesis using assms
    by (auto simp: enqueue_disabled client_inv_def timer_pending_def split: option.splits)
next
  case en: True
  obtain m r1 where er: "enrich env ty msg r = (m, r1)" by (cases "enrich env ty msg r")
  note rf = enrich_runtime_fields[OF er]
  show ?thesis
  proof (cases "flushed c")
    case False
    show ?thesis using assms rf en
      by (auto simp: enqueue_first[OF en False er] client_inv_def timer_pending_def
          split: option.splits)
  next
    case fl: True
    show ?thesis
    proof (cases "flushAt c \<le> int (length (queue c)) + 1")
      case sz: True
      show ?thesis using assms rf en
        by (auto simp: enqueue_reaching[OF en fl er sz refl refl refl] client_inv_def
            timer_pending_def split: option.splits)
    next
      case sz: False
      show ?thesis using assms rf en
        by (auto simp: enqueue_below[OF en fl er sz refl] client_inv_def
            timer_pending_def split: option.splits)
    qed
  qed
qed

lemma settle_fields [simp]:
  "sent (settle out p r) = sent r" "timers (settle out p r) = timers r"
  by (simp_all add: settle_def flush_done_def split: outcome.splits option.splits)

lemma step_inv: "client_inv wk s \<Longrightarrow> client_inv wk (step env ev s)"
proof (cases ev)
  case (Track msg cb)
  assume "client_inv wk s"
  then show ?thesis using Track enqueue_inv[of wk "fst s" "snd s" env "''track''" msg cb]
    by (cases s) (auto split: option.splits)
next
  case (Enqueue ty msg cb)
  assume "client_inv wk s"
  then show ?thesis using Enqueue enqueue_inv[of wk "fst s" "snd s"] by simp
next
  case (Flush cb)
  assume "client_inv wk s"
  then show ?thesis using Flush flush_inv[of wk "fst s" "snd s"] by simp
next
  case (TimerFires h)
  assume a: "client_inv wk s"
  show ?thesis
  proof (cases "h \<in> fst ` set (timers (snd s))")
    case False
    then show ?thesis using a TimerFires by (simp add: timer_fires_def)
  next
    case True
    have "client_inv wk (flush env None (fst s, clearTimeout h (snd s)))"
      using a by (auto simp: client_inv_def timer_pending_def split: option.splits)
    then show ?thesis using True TimerFires by (simp add: timer_fires_def)
  qed
next
  case RunImmediate
  assume "client_inv wk s"
  then show ?thesis using RunImmediate
    by (auto simp: client_inv_def timer_pending_def run_immediate_def split: option.splits list.splits)
next
  case (Settle i out)
  assume "client_inv wk s"
  then show ?thesis using Settle
    by (auto simp: client_inv_def timer_pending_def settle_at_def split: option.splits)
next
  case (NewObject obj)
  assume "client_inv wk s"
  then show ?thesis using NewObject
    by (auto simp: client_inv_def timer_pending_def split: option.splits)
next
  case (Tick d)
  assume "client_inv wk s"
  then show ?thesis using Tick
    by (auto simp: client_inv_def timer_pending_def split: option.splits)
qed

lemma run_inv: "client_inv wk s \<Longrightarrow> client_inv wk (run env evs s)"
  unfolding run_def by (induction evs arbitrary: s) (simp_all add: step_inv)

lemma constructor_fields:
  assumes "constructor env wk opts = Inr c"
  shows "writeKey c = wk" and "1 \<le> flushAt c" and "flushInterval c \<noteq> 0"
    and "timer c = None" and "queue c = []" and "\<not> flushed c"
proof -
  define given where "given = (case opts of None \<Rightarrow> no_options | Some x \<Rightarrow> x)"
  have t: "truthy wk"
  proof (rule ccontr)
    assume "\<not> truthy wk"
    then show False using assms by (simp add: constructor_def Let_def)
  qed
  have c: "writeKey c = wk \<and> timer c = None \<and> queue c = [] \<and> \<not> flushed c
      \<and> flushAt c = (case opt_flushAt given of Some n \<Rightarrow> max n 1 | None \<Rightarrow> 20)
      \<and> flushInterval c =
          (case opt_flushInterval given of Some n \<Rightarrow> (if n \<noteq> 0 then n else 10000) | None \<Rightarrow> 10000)"
    using assms t unfolding constructor_def Let_def given_def by (simp add: sum.inject) fastforce
  from c show "writeKey c = wk" and "timer c = None" and "queue c = []" and "\<not> flushed c"
    by simp_all
  from c show "1 \<le> flushAt c" by (simp split: option.splits)
  from c show "flushInterval c \<noteq> 0" by (simp split: option.splits)
qed

lemma constructor_inv:
  "constructor env wk opts = Inr c \<Longrightarrow> client_inv wk (c, fresh_runtime h)"
  using constructor_fields[of env wk opts c]
  by (simp add: client_inv_def timer_pending_def)

text \<open>Every state a constructed client reaches satisfies the invariant.\<close>

lemma reachable_inv:
  "constructor env wk opts = Inr c \<Longrightarrow> client_inv wk (run env evs (c, fresh_runtime h))"
  by (rule run_inv) (rule constructor_inv)

lemma reachable_timer_pending:
  "constructor env wk opts = Inr c \<Longrightarrow> timer_pending (run env evs (c, fresh_runtime h))"
  using reachable_inv[of env wk opts c evs h] by (simp add: client_inv_def)

lemma reachable_flushAt:
  "constructor env wk opts = Inr c \<Longrightarrow> 1 \<le> flushAt (fst (run env evs (c, fresh_runtime h)))"
  using reachable_inv[of env wk opts c evs h] by (simp add: client_inv_def)

section \<open>The example inputs, evaluated\<close>

lemma queued_client_simps [simp]:
  "enable queued_client" "queue queued_client = [\<lparr>message = JRef 4, callback = Fn 1\<rparr>,
                             \<lparr>message = JRef 9, callback = Noop\<rparr>]"
  "flushAt queued_client = 20" "flushed queued_client" "timer queued_client = None"
  "flushInterval queued_client = 10000"
  by (simp_all add: queued_client_def flushed_client_def example_client_def)

lemma example_client_simps [simp]:
  "enable example_client" "queue example_client = []" "flushAt example_client = 20"
  "\<not> flushed example_client" "timer example_client = None"
  "flushInterval example_client = 10000" "writeKey example_client = JStr ''key''"
  by (simp_all add: example_client_def)

lemma constructor_example:
  "constructor example_env (JStr ''key'') None = Inr example_client"
  by (simp add: constructor_def no_options_def example_env_def example_client_def default_host_def)

lemma eager_client_simps [simp]:
  "enable eager_client" "queue eager_client = []" "flushAt eager_client = 1"
  "flushed eager_client" "timer eager_client = Some 0"
  "flushInterval eager_client = 10000"
  by (simp_all add: eager_client_def flushed_client_def example_client_def)

lemma armed_runtime_simps [simp]:
  "timers armed_runtime = [(0, 10000)]" "next_timer armed_runtime = 1"
  "sent armed_runtime = []" "heap armed_runtime = example_heap"
  by (simp_all add: armed_runtime_def)

lemma flushed_client_simps [simp]:
  "enable flushed_client" "queue flushed_client = []" "flushAt flushed_client = 20"
  "flushed flushed_client" "timer flushed_client = None"
  "flushInterval flushed_client = 10000"
  by (simp_all add: flushed_client_def example_client_def)

lemma example_heap_get [simp]:
  "length example_heap = 4"
  "get_prop example_heap (JRef 0) ''userId'' = JNum 42"
  "get_prop example_heap (JRef 0) ''context'' = JRef 1"
  "get_prop example_heap (JRef 0) ''_metadata'' = JUndefined"
  "get_prop example_heap (JRef 2) ''anonymousId'' = JNum 0"
  "own_props example_heap (JRef 1) = [''ip'' \<mapsto> JStr ''10.0.0.1'', ''library'' \<mapsto> JStr ''mine'']"
  "own_props example_heap (JRef (Suc 0)) = [''ip'' \<mapsto> JStr ''10.0.0.1'', ''library'' \<mapsto> JStr ''mine'']"
  by (simp_all add: example_heap_def get_prop_def own_props_def)

lemma own_props_undefined [simp]: "own_props h JUndefined = Map.empty"
  by (simp add: own_props_def)

lemma example_env_nodeVersion [simp]: "nodeVersion example_env = ''18.0.0''"
  by (simp add: example_env_def)

lemma show_nat_42: "show_nat 42 = ''42''"
  by code_simp

lemma example_stringify_42 [simp]: "JSON_stringify example_env h (JNum 42) = ''42''"
  by (simp add: example_env_def example_stringify_def show_nat_42)

lemma enqueue_flushed_client:
  "queue (fst (enqueue example_env ''track'' msg None (flushed_client, fresh_runtime example_heap)))
     = [\<lparr>message = JRef 4, callback = Noop\<rparr>]"
proof -
  obtain m r1 where er: "enrich example_env ''track'' msg (fresh_runtime example_heap) = (m, r1)"
    by (cases "enrich example_env ''track'' msg (fresh_runtime example_heap)")
  have h1: "enable flushed_client" and h2: "flushed flushed_client"
    and h3: "\<not> flushAt flushed_client \<le> int (length (queue flushed_client)) + 1" by simp_all
  show ?thesis
    using en_addr[OF er] by (simp add: enqueue_below[OF h1 h2 er h3 refl])
qed

section \<open>Retry classification\<close>

text \<open>
  C7, as the code has it. The retry classifier returns true exactly for a failure without
  a response that \<^verbatim>\<open>axiosRetry.isNetworkError\<close> accepts (it has an error code, the
  code is not \<^verbatim>\<open>ECONNABORTED\<close>, and \<^verbatim>\<open>is-retry-allowed\<close> does not refuse it),
  for a failure whose response has a status in 500..599, and for a failure whose response
  has status 429. So a failure with a response is retryable exactly when its status is in
  500..599 or is 429, which a 404 is not, and a failure without a response is retryable
  exactly when it is such a network error, which a timeout is not.
\<close>

theorem isErrorRetryable_iff:
  "isErrorRetryable env err =
     ((response err = None
         \<and> (\<exists>c. code err = Some c \<and> c \<noteq> [] \<and> c \<noteq> ''ECONNABORTED'')
         \<and> isRetryAllowed env err)
      \<or> (\<exists>resp. response err = Some resp
             \<and> (500 \<le> status resp \<and> status resp \<le> 599 \<or> status resp = 429)))
   \<and> (\<forall>resp. response err = Some resp \<longrightarrow>
          isErrorRetryable env err
            = (500 \<le> status resp \<and> status resp \<le> 599 \<or> status resp = 429))
   \<and> (response err = None \<longrightarrow> isErrorRetryable env err = isNetworkError env err)"
  by (cases "response err"; cases "code err")
     (auto simp: isErrorRetryable_def isNetworkError_def)

text \<open>
  A 404 is not retried, a 503 is, and so is a reset connection.
\<close>

theorem isErrorRetryable_iff_witness:
  "response not_found_error = Some \<lparr>status = 404, statusText = ''Not Found''\<rparr>
   \<and> \<not> isErrorRetryable example_env not_found_error
   \<and> response unavailable_error = Some \<lparr>status = 503, statusText = ''Service Unavailable''\<rparr>
   \<and> isErrorRetryable example_env unavailable_error
   \<and> response reset_error = None
   \<and> isNetworkError example_env reset_error
   \<and> isErrorRetryable example_env reset_error"
proof -
  have h1: "response not_found_error = Some \<lparr>status = 404, statusText = ''Not Found''\<rparr>"
    by (simp add: not_found_error_def)
  have h2: "response unavailable_error
      = Some \<lparr>status = 503, statusText = ''Service Unavailable''\<rparr>"
    by (simp add: unavailable_error_def)
  have h3: "response reset_error = None" by (simp add: reset_error_def)
  have h4: "isNetworkError example_env reset_error"
    by (simp add: isNetworkError_def reset_error_def example_env_def)
  from isErrorRetryable_iff[of example_env not_found_error] h1
  have n: "\<not> isErrorRetryable example_env not_found_error" by simp
  from isErrorRetryable_iff[of example_env unavailable_error] h2
  have u: "isErrorRetryable example_env unavailable_error" by simp
  from isErrorRetryable_iff[of example_env reset_error]
  have "response reset_error = None \<longrightarrow>
      isErrorRetryable example_env reset_error = isNetworkError example_env reset_error"
    by (elim conjE)
  with h3 h4 have r: "isErrorRetryable example_env reset_error" by simp
  from h1 h2 h3 h4 n u r show ?thesis by simp
qed

text \<open>
  C7 as stated fails for a timeout: the failure of a request that timed out has no
  response, \<^verbatim>\<open>isNetworkError\<close> does not accept its code, and the classifier returns
  false at the test of the response.
\<close>

theorem timeout_is_not_retryable:
  "response timeout_error = None
   \<and> code timeout_error = Some ''ECONNABORTED''
   \<and> \<not> isNetworkError example_env timeout_error
   \<and> \<not> isErrorRetryable example_env timeout_error"
  by (simp add: isErrorRetryable_def isNetworkError_def timeout_error_def)

section \<open>Flush\<close>

text \<open>
  C3. A flush on an enabled client whose queue holds \<open>n > 0\<close> entries removes exactly
  \<open>min n flushAt\<close> entries from the front of the queue, in enqueue order, to form the
  batch of the request, and leaves the other \<open>n - min n flushAt\<close> entries queued in
  their order. \<open>flushAt\<close> is not negative, as the constructor ensures.
\<close>

theorem flush_takes_front:
  assumes "enable c" and "queue c \<noteq> []" and "0 \<le> flushAt c"
  shows "\<exists>rq. sent (snd (flush env cb (c, r))) = sent r @ [rq]
      \<and> batch (data rq) = map message (take (min (length (queue c)) (nat (flushAt c))) (queue c))
      \<and> length (batch (data rq)) = min (length (queue c)) (nat (flushAt c))
      \<and> int (length (batch (data rq))) = min (int (length (queue c))) (flushAt c)
      \<and> queue (fst (flush env cb (c, r)))
          = drop (min (length (queue c)) (nat (flushAt c))) (queue c)
      \<and> length (queue (fst (flush env cb (c, r))))
          = length (queue c) - min (length (queue c)) (nat (flushAt c))"
  using assms
  by (simp add: flush_nonempty take_min_length drop_min_length make_request_def) linarith

text \<open>Two records waiting and \<open>flushAt = 20\<close>: both are sent, in order, and none is left.\<close>

theorem flush_takes_front_witness:
  "enable queued_client \<and> queue queued_client \<noteq> [] \<and> 0 \<le> flushAt queued_client
   \<and> (\<exists>rq. sent (snd (flush example_env None (queued_client, fresh_runtime example_heap))) = [rq]
          \<and> batch (data rq) = [JRef 4, JRef 9])
   \<and> queue (fst (flush example_env None (queued_client, fresh_runtime example_heap))) = []"
proof -
  have h1: "enable queued_client" and h2: "queue queued_client \<noteq> []"
    and h3: "0 \<le> flushAt queued_client" by simp_all
  from flush_takes_front[OF h1 h2 h3, of example_env None "fresh_runtime example_heap"]
  show ?thesis by auto
qed

text \<open>
  C4. When the request of a flush fails, the error handed on is a new error carrying the
  status text of the response if the failure has a response, and the transport error
  itself otherwise. Every entry callback of the batch is called with that one error, in
  batch order, and then the flush callback is called with the same error and the batch.
\<close>

theorem failed_request_reports_one_error:
  assumes "enable c" and "queue c \<noteq> []"
  shows "\<exists>p. inflight (snd (flush env cb (c, r))) = inflight r @ [p]
      \<and> callbacks p = map callback (take (nat (flushAt c)) (queue c))
      \<and> batch (data (req p)) = map message (take (nat (flushAt c)) (queue c))
      \<and> flush_callback p = or_noop cb
      \<and> (\<forall>err rt. settle (Rejected err) p rt =
            rt\<lparr>trace := trace rt
               @ map (\<lambda>f. Invoke f
                   [case response err of
                      Some resp \<Rightarrow> ANewError (statusText resp)
                    | None \<Rightarrow> ATransportError err]) (callbacks p)
               @ [Invoke (or_noop cb)
                   [case response err of
                      Some resp \<Rightarrow> ANewError (statusText resp)
                    | None \<Rightarrow> ATransportError err,
                    AData (data (req p))]]\<rparr>)"
  using assms
  by (simp add: flush_nonempty make_request_def settle_def flush_done_def split: option.splits)

text \<open>
  The collector answers 500 \<^verbatim>\<open>Server Error\<close>: both entry callbacks and the flush
  callback receive an error with that message.
\<close>

theorem failed_request_reports_one_error_witness:
  "enable queued_client \<and> queue queued_client \<noteq> []
   \<and> (\<exists>p. inflight (snd (flush example_env (Some (Fn 7)) (queued_client, fresh_runtime example_heap))) = [p]
        \<and> trace (settle (Rejected server_error) p (fresh_runtime example_heap)) =
            [Invoke (Fn 1) [ANewError ''Server Error''],
             Invoke Noop [ANewError ''Server Error''],
             Invoke (Fn 7) [ANewError ''Server Error'', AData (data (req p))]])"
proof -
  have h1: "enable queued_client" and h2: "queue queued_client \<noteq> []" by simp_all
  from failed_request_reports_one_error[OF h1 h2, of example_env "Some (Fn 7)"
      "fresh_runtime example_heap"]
  obtain p where
    p: "inflight (snd (flush example_env (Some (Fn 7)) (queued_client, fresh_runtime example_heap)))
          = inflight (fresh_runtime example_heap) @ [p]"
      "callbacks p = map callback (take (nat (flushAt queued_client)) (queue queued_client))"
      "\<forall>err rt. settle (Rejected err) p rt =
            rt\<lparr>trace := trace rt
               @ map (\<lambda>f. Invoke f
                   [case response err of
                      Some resp \<Rightarrow> ANewError (statusText resp)
                    | None \<Rightarrow> ATransportError err]) (callbacks p)
               @ [Invoke (or_noop (Some (Fn 7)))
                   [case response err of
                      Some resp \<Rightarrow> ANewError (statusText resp)
                    | None \<Rightarrow> ATransportError err,
                    AData (data (req p))]]\<rparr>"
    by (elim exE conjE) (rule that; assumption)
  have "trace (settle (Rejected server_error) p (fresh_runtime example_heap)) =
            [Invoke (Fn 1) [ANewError ''Server Error''],
             Invoke Noop [ANewError ''Server Error''],
             Invoke (Fn 7) [ANewError ''Server Error'', AData (data (req p))]]"
    using p(2) by (simp add: p(3) server_error_def)
  with p(1) h1 h2 show ?thesis by simp
qed

section \<open>The disabled client\<close>

text \<open>
  C6, as the code has it. On a disabled client, \<^verbatim>\<open>enqueue\<close>, \<^verbatim>\<open>flush\<close>, and
  \<^verbatim>\<open>track\<close> of an event that passes validation change nothing but the list of
  scheduled callbacks: no enrichment, no queue entry, no timer, no request, and no callback
  is called within the call. The callback is scheduled with \<^verbatim>\<open>setImmediate\<close> and,
  once the callbacks scheduled before it have run, is called without arguments, so without
  an error. A \<^verbatim>\<open>track\<close> of an event that fails validation throws the validation
  error instead.
\<close>

theorem disabled_client_is_noop:
  assumes "\<not> enable c"
  shows "enqueue env ty msg cb (c, r) = (c, r\<lparr>immediates := immediates r @ [or_noop cb]\<rparr>)
      \<and> flush env cb (c, r) = (c, r\<lparr>immediates := immediates r @ [or_noop cb]\<rparr>)
      \<and> (looselyValidate env (heap r) msg ''track'' = None \<longrightarrow>
           track env msg cb (c, r) = Inr (c, r\<lparr>immediates := immediates r @ [or_noop cb]\<rparr>))
      \<and> (\<forall>e. looselyValidate env (heap r) msg ''track'' = Some e \<longrightarrow>
           track env msg cb (c, r) = Inl e)
      \<and> (run_immediate ^^ Suc (length (immediates r)))
            (r\<lparr>immediates := immediates r @ [or_noop cb]\<rparr>)
          = r\<lparr>immediates := [],
              trace := trace r @ map (\<lambda>f. Invoke f []) (immediates r) @ [Invoke (or_noop cb) []]\<rparr>"
  using assms
  by (simp add: enqueue_disabled flush_disabled setImmediate_def run_immediates del: funpow.simps)

theorem disabled_client_is_noop_witness:
  "\<not> enable disabled_client
   \<and> looselyValidate example_env (heap (fresh_runtime example_heap)) (JRef 0) ''track'' = None
   \<and> track example_env (JRef 0) (Some (Fn 1)) (disabled_client, fresh_runtime example_heap)
       = Inr (disabled_client, (fresh_runtime example_heap)\<lparr>immediates := [Fn 1]\<rparr>)
   \<and> flush example_env (Some (Fn 1)) (disabled_client, fresh_runtime example_heap)
       = (disabled_client, (fresh_runtime example_heap)\<lparr>immediates := [Fn 1]\<rparr>)"
proof -
  have h1: "\<not> enable disabled_client"
    by (simp add: disabled_client_def example_client_def)
  have h2: "looselyValidate example_env (heap (fresh_runtime example_heap)) (JRef 0) ''track'' = None"
    by (simp add: example_env_def example_validate_def get_prop_def own_props_def example_heap_def)
  from disabled_client_is_noop[OF h1, of example_env "''track''" "JRef 0" "Some (Fn 1)"
      "fresh_runtime example_heap"] h1 h2
  show ?thesis by simp
qed

text \<open>
  C6 as stated fails for \<^verbatim>\<open>track\<close>: validation comes before the test of
  \<^verbatim>\<open>enable\<close>, so on a disabled client an event without identity makes
  \<^verbatim>\<open>track\<close> throw, and the callback is never scheduled.
\<close>

theorem track_disabled_invalid_event:
  "\<not> enable disabled_client
   \<and> track example_env (JRef 3) (Some (Fn 1)) (disabled_client, fresh_runtime example_heap)
       = Inl (ValidationError ''You must pass either an anonymousId or a userId.'')"
  by (simp add: disabled_client_def example_client_def example_env_def example_validate_def
      get_prop_def own_props_def example_heap_def)

section \<open>The flush triggers of enqueue\<close>

text \<open>
  C5. The first enqueue on an enabled client that has never flushed calls \<^verbatim>\<open>flush\<close>
  within the call, whatever the queue length and \<^verbatim>\<open>flushAt\<close> are: a request is
  issued, and the has-flushed-once flag is set. On a freshly constructed client the batch
  of that request is the one new record and the queue is empty again.
\<close>

theorem first_enqueue_flushes:
  assumes "enable c" and "\<not> flushed c"
  shows "\<exists>m r1. enrich env ty msg r = (m, r1)
      \<and> enqueue env ty msg cb (c, r) =
          flush env None
            (c\<lparr>queue := queue c @ [\<lparr>message = JRef m, callback = or_noop cb\<rparr>],
               flushed := True\<rparr>, r1)
      \<and> flushed (fst (enqueue env ty msg cb (c, r)))
      \<and> length (sent (snd (enqueue env ty msg cb (c, r)))) = Suc (length (sent r))
      \<and> (queue c = [] \<and> 1 \<le> flushAt c \<longrightarrow>
           (\<exists>rq. sent (snd (enqueue env ty msg cb (c, r))) = sent r @ [rq]
                \<and> batch (data rq) = [JRef m])
           \<and> queue (fst (enqueue env ty msg cb (c, r))) = [])"
proof -
  obtain m r1 where en: "enrich env ty msg r = (m, r1)" by (cases "enrich env ty msg r")
  note f = enqueue_first[OF assms en, of cb]
  show ?thesis
    using assms en enrich_runtime_fields[OF en]
    by (auto simp: f make_request_def take_single)
qed

text \<open>The first event tracked by \<^verbatim>\<open>new TheAnalyticsAPI('key')\<close> is sent alone, at once.\<close>

theorem first_enqueue_flushes_witness:
  "enable example_client \<and> \<not> flushed example_client
   \<and> flushed (fst (enqueue example_env ''track'' (JRef 0) None
                     (example_client, fresh_runtime example_heap)))
   \<and> (\<exists>rq. sent (snd (enqueue example_env ''track'' (JRef 0) None
                     (example_client, fresh_runtime example_heap))) = [rq]
          \<and> batch (data rq) = [JRef 4])
   \<and> queue (fst (enqueue example_env ''track'' (JRef 0) None
                     (example_client, fresh_runtime example_heap))) = []"
proof -
  have h1: "enable example_client" and h2: "\<not> flushed example_client" by simp_all
  from first_enqueue_flushes[OF h1 h2, of example_env "''track''" "JRef 0"
      "fresh_runtime example_heap" None]
  obtain m r1 where en: "enrich example_env ''track'' (JRef 0) (fresh_runtime example_heap) = (m, r1)"
    and fl: "flushed (fst (enqueue example_env ''track'' (JRef 0) None
                     (example_client, fresh_runtime example_heap)))"
    and rest: "queue example_client = [] \<and> 1 \<le> flushAt example_client \<longrightarrow>
           (\<exists>rq. sent (snd (enqueue example_env ''track'' (JRef 0) None
                     (example_client, fresh_runtime example_heap)))
                   = sent (fresh_runtime example_heap) @ [rq]
                \<and> batch (data rq) = [JRef m])
           \<and> queue (fst (enqueue example_env ''track'' (JRef 0) None
                     (example_client, fresh_runtime example_heap))) = []"
    by (elim exE conjE) (rule that; assumption)
  have "m = 4" using en_addr[OF en] by (simp add: example_heap_def)
  with fl rest h1 h2 show ?thesis by simp
qed

text \<open>
  C2 as stated fails on the first enqueue: the fresh client has a truthy
  \<^verbatim>\<open>flushInterval\<close> and no timer, and when its first \<^verbatim>\<open>enqueue\<close> returns,
  still no timer is armed.
\<close>

theorem first_enqueue_arms_no_timer:
  "constructor example_env (JStr ''key'') None = Inr example_client
   \<and> enable example_client \<and> flushInterval example_client \<noteq> 0
   \<and> timer (fst (enqueue example_env ''track'' (JRef 0) None
                   (example_client, fresh_runtime example_heap))) = None
   \<and> timers (snd (enqueue example_env ''track'' (JRef 0) None
                     (example_client, fresh_runtime example_heap))) = []"
proof -
  obtain m r1 where en: "enrich example_env ''track'' (JRef 0) (fresh_runtime example_heap) = (m, r1)"
    by (cases "enrich example_env ''track'' (JRef 0) (fresh_runtime example_heap)")
  have h1: "enable example_client" and h2: "\<not> flushed example_client" by simp_all
  show ?thesis
    using enrich_runtime_fields[OF en]
    by (simp add: enqueue_first[OF h1 h2 en] constructor_example)
qed

text \<open>
  C2, as the code has it. On an enabled client that has flushed before, every enqueue
  evaluates the size trigger and then the timer trigger, and both can act in the same call:
  a flush is made exactly when the queue has reached \<^verbatim>\<open>flushAt\<close>, and after that a
  one-shot timer is armed if \<^verbatim>\<open>flushInterval\<close> is truthy and no timer is set (which is
  so after a flush). On the first enqueue ever, only the first trigger acts: the client
  flushes and returns, and no timer is armed in that call.
\<close>

theorem enqueue_triggers:
  assumes "enable c" and "s' = enqueue env ty msg cb (c, r)"
  shows "(flushed c \<longrightarrow>
            (flushAt c \<le> int (length (queue c)) + 1 \<longrightarrow>
               length (sent (snd s')) = Suc (length (sent r)))
          \<and> (\<not> flushAt c \<le> int (length (queue c)) + 1 \<longrightarrow> sent (snd s') = sent r)
          \<and> (flushInterval c \<noteq> 0
               \<and> (timer c = None \<or> flushAt c \<le> int (length (queue c)) + 1) \<longrightarrow>
                 timer (fst s') = Some (next_timer r)
               \<and> (\<exists>old. timers (snd s') = old @ [(next_timer r, flushInterval c)]
                        \<and> set old \<subseteq> set (timers r)))
          \<and> (flushInterval c \<noteq> 0 \<longrightarrow> timer (fst s') \<noteq> None))
       \<and> (\<not> flushed c \<longrightarrow>
            flushed (fst s') \<and> length (sent (snd s')) = Suc (length (sent r))
          \<and> timer (fst s') = None
          \<and> set (timers (snd s')) \<subseteq> set (timers r)
          \<and> next_timer (snd s') = next_timer r)"
proof -
  obtain m r1 where en: "enrich env ty msg r = (m, r1)" by (cases "enrich env ty msg r")
  note rf = enrich_runtime_fields[OF en]
  show ?thesis
  proof (cases "flushed c")
    case False
    show ?thesis
      using False rf assms(1)
      by (auto simp: assms(2) enqueue_first[OF assms(1) False en] split: option.splits)
  next
    case True
    show ?thesis
    proof (cases "flushAt c \<le> int (length (queue c)) + 1")
      case sz: True
      show ?thesis
        using True sz rf
        by (auto simp: assms(2) enqueue_reaching[OF assms(1) True en sz refl refl refl]
            split: option.splits)
    next
      case sz: False
      show ?thesis
        using True sz rf
        by (auto simp: assms(2) enqueue_below[OF assms(1) True en sz refl])
    qed
  qed
qed

text \<open>
  A client with \<^verbatim>\<open>flushAt = 1\<close> and an armed timer flushes and arms a new timer in
  one call; the fresh client flushes and arms none.
\<close>

theorem enqueue_triggers_witness:
  "enable eager_client \<and> flushed eager_client
   \<and> flushAt eager_client \<le> int (length (queue eager_client)) + 1
   \<and> flushInterval eager_client \<noteq> 0
   \<and> length (sent (snd (enqueue example_env ''track'' (JRef 0) None
                           (eager_client, armed_runtime)))) = 1
   \<and> timer (fst (enqueue example_env ''track'' (JRef 0) None
                   (eager_client, armed_runtime))) = Some 1
   \<and> enable example_client \<and> \<not> flushed example_client
   \<and> timer (fst (enqueue example_env ''track'' (JRef 0) None
                   (example_client, fresh_runtime example_heap))) = None
   \<and> next_timer (snd (enqueue example_env ''track'' (JRef 0) None
                   (example_client, fresh_runtime example_heap))) = 0"
proof -
  have h1: "enable eager_client" and h2: "enable example_client" by simp_all
  from enqueue_triggers[OF h1 refl, of example_env "''track''" "JRef 0" None armed_runtime]
    enqueue_triggers[OF h2 refl, of example_env "''track''" "JRef 0" None
      "fresh_runtime example_heap"]
  show ?thesis by simp
qed

text \<open>
  C9. After the first enqueue, every enqueue on an enabled client with a truthy
  \<^verbatim>\<open>flushInterval\<close> returns with a timer pending, also when the size-triggered flush of
  that call has cleared the timer: the timer is armed again before the call returns. The
  timer the client holds before the call is one that has not fired, as in every state a
  client reaches.
\<close>

theorem enqueue_leaves_timer_pending:
  assumes "enable c" and "flushed c" and "flushInterval c \<noteq> 0"
    and "timer_pending (c, r)" and "s' = enqueue env ty msg cb (c, r)"
  shows "timer (fst s') \<noteq> None \<and> timer_pending s'
       \<and> (flushAt c \<le> int (length (queue c)) + 1 \<longrightarrow>
            length (sent (snd s')) = Suc (length (sent r))
          \<and> timer (fst s') = Some (next_timer r)
          \<and> (next_timer r, flushInterval c) \<in> set (timers (snd s')))"
proof -
  obtain m r1 where en: "enrich env ty msg r = (m, r1)" by (cases "enrich env ty msg r")
  note rf = enrich_runtime_fields[OF en]
  show ?thesis
  proof (cases "flushAt c \<le> int (length (queue c)) + 1")
    case sz: True
    show ?thesis
      using sz rf assms(3)
      by (auto simp: assms(5) timer_pending_def
          enqueue_reaching[OF assms(1,2) en sz refl refl refl] split: option.splits)
  next
    case sz: False
    show ?thesis
      using sz rf assms(3,4)
      by (auto simp: assms(5) timer_pending_def enqueue_below[OF assms(1,2) en sz refl]
          split: option.splits)
  qed
qed

text \<open>
  The size-triggered flush clears timer 0, and timer 1 is pending when the call returns.
\<close>

theorem enqueue_leaves_timer_pending_witness:
  "enable eager_client \<and> flushed eager_client \<and> flushInterval eager_client \<noteq> 0
   \<and> timer_pending (eager_client, armed_runtime)
   \<and> flushAt eager_client \<le> int (length (queue eager_client)) + 1
   \<and> timer (fst (enqueue example_env ''track'' (JRef 0) None
                   (eager_client, armed_runtime))) = Some 1
   \<and> (1, 10000) \<in> set (timers (snd (enqueue example_env ''track'' (JRef 0) None
                   (eager_client, armed_runtime))))
   \<and> timer_pending (enqueue example_env ''track'' (JRef 0) None (eager_client, armed_runtime))"
proof -
  have h1: "enable eager_client" and h2: "flushed eager_client"
    and h3: "flushInterval eager_client \<noteq> 0"
    and h4: "timer_pending (eager_client, armed_runtime)"
    by (simp_all add: timer_pending_def)
  from enqueue_leaves_timer_pending[OF h1 h2 h3 h4 refl, of example_env "''track''" "JRef 0" None]
    h4
  show ?thesis by simp
qed

section \<open>The enriched record\<close>

text \<open>
  C1, as the code has it. For an event enqueued on an enabled client, the enriched record
  \<open>m\<close> is queued or sent in that call. If the event's \<^verbatim>\<open>anonymousId\<close> or
  \<^verbatim>\<open>userId\<close> is truthy and not a string, the record carries in its place the
  \<^verbatim>\<open>JSON.stringify\<close> serialization of it, taken in a heap in which the caller's
  objects are as the caller left them. Consequently an \<^verbatim>\<open>anonymousId\<close> or
  \<^verbatim>\<open>userId\<close> of the record that is truthy is a string.
\<close>

theorem enqueue_coerces_ids:
  assumes "enable c" and "k = ''anonymousId'' \<or> k = ''userId''"
    and "s' = enqueue env ty msg cb (c, r)" and "m = JRef (length (heap r))"
  shows "(\<exists>new. sent (snd s') = sent r @ new
            \<and> concat (map (\<lambda>q. batch (data q)) new) @ map message (queue (fst s'))
                = map message (queue c) @ [m])
       \<and> (truthy (get_prop (heap r) msg k) \<and> \<not> isString (heap r) (get_prop (heap r) msg k) \<longrightarrow>
            (\<exists>zs. get_prop (heap (snd s')) m k =
                    JStr (JSON_stringify env (heap r @ zs) (get_prop (heap r) msg k))))
       \<and> (truthy (get_prop (heap (snd s')) m k) \<longrightarrow>
            isString (heap (snd s')) (get_prop (heap (snd s')) m k))"
proof -
  obtain a r1 where er: "enrich env ty msg r = (a, r1)" by (cases "enrich env ty msg r")
  have m: "m = JRef a" using en_addr[OF er] assms(4) by simp
  have hp: "heap (snd s') = heap r1" using enqueue_record(1)[OF assms(1) er] assms(3) by simp
  have q: "\<exists>new. sent (snd s') = sent r @ new
            \<and> concat (map (\<lambda>q. batch (data q)) new) @ map message (queue (fst s'))
                = map message (queue c) @ [m]"
    using enqueue_record(2)[OF assms(1) er, of cb] by (simp add: m assms(3))
  show ?thesis
    unfolding hp m using q en_coerced[OF er assms(2)] en_id_string[OF er assms(2)]
    by (simp add: m)
qed

text \<open>
  The event with \<^verbatim>\<open>userId: 42\<close> is queued with \<^verbatim>\<open>userId: "42"\<close>.
\<close>

theorem enqueue_coerces_ids_witness:
  "enable flushed_client
   \<and> truthy (get_prop example_heap (JRef 0) ''userId'')
   \<and> \<not> isString example_heap (get_prop example_heap (JRef 0) ''userId'')
   \<and> map message (queue (fst (enqueue example_env ''track'' (JRef 0) None
                                 (flushed_client, fresh_runtime example_heap)))) = [JRef 4]
   \<and> get_prop (heap (snd (enqueue example_env ''track'' (JRef 0) None
                             (flushed_client, fresh_runtime example_heap)))) (JRef 4) ''userId''
       = JStr ''42''"
proof -
  have h1: "enable flushed_client" by simp
  have h2: "''userId'' = ''anonymousId'' \<or> ''userId'' = ''userId''" by simp
  have h4: "JRef 4 = JRef (length (heap (fresh_runtime example_heap)))" by simp
  from enqueue_coerces_ids[OF h1 h2 refl h4, of example_env "''track''" "JRef 0" None]
  show ?thesis by (simp add: isString_def enqueue_flushed_client)
qed

text \<open>
  C1 as stated fails for an identifier that is present but falsy: an
  \<^verbatim>\<open>anonymousId\<close> that is the number 0 is not a string, and the record queued still
  carries the number 0.
\<close>

theorem falsy_id_is_not_serialized:
  "enable flushed_client
   \<and> own_props example_heap (JRef 2) ''anonymousId'' = Some (JNum 0)
   \<and> \<not> isString example_heap (JNum 0)
   \<and> map message (queue (fst (enqueue example_env ''track'' (JRef 2) None
                                 (flushed_client, fresh_runtime example_heap)))) = [JRef 4]
   \<and> get_prop (heap (snd (enqueue example_env ''track'' (JRef 2) None
                             (flushed_client, fresh_runtime example_heap)))) (JRef 4) ''anonymousId''
       = JNum 0
   \<and> \<not> isString (heap (snd (enqueue example_env ''track'' (JRef 2) None
                             (flushed_client, fresh_runtime example_heap)))) (JNum 0)"
proof -
  obtain m r1 where er: "enrich example_env ''track'' (JRef 2) (fresh_runtime example_heap) = (m, r1)"
    by (cases "enrich example_env ''track'' (JRef 2) (fresh_runtime example_heap)")
  have k: "''anonymousId'' = ''anonymousId'' \<or> ''anonymousId'' = ''userId''" by simp
  have "get_prop (heap r1) (JRef m) ''anonymousId''
      = get_prop (heap (fresh_runtime example_heap)) (JRef 2) ''anonymousId''"
    by (rule en_kept[OF er k]) simp
  moreover have "m = 4" using en_addr[OF er] by simp
  moreover have "heap (snd (enqueue example_env ''track'' (JRef 2) None
                             (flushed_client, fresh_runtime example_heap))) = heap r1"
    by (rule enqueue_record(1)[OF _ er]) simp
  ultimately show ?thesis
    by (simp add: enqueue_flushed_client isString_def)
       (simp add: example_heap_def own_props_def)
qed

text \<open>
  C8. The \<^verbatim>\<open>context\<close> of the enriched record \<open>m\<close> is a new object holding the
  library identity under \<^verbatim>\<open>library\<close>, overlaid with the own properties of the
  caller's context: every key of the caller's context has the caller's value. The same
  holds of \<^verbatim>\<open>_metadata\<close> over \<^verbatim>\<open>nodeVersion\<close>. Every object that existed before
  the call is unchanged: the heap has only grown. The caller's \<^verbatim>\<open>context\<close> and
  \<^verbatim>\<open>_metadata\<close>, when they are objects, are objects of the heap.
\<close>

theorem enrich_merges_context:
  assumes "enable c" and "s' = enqueue env ty msg cb (c, r)" and "m = length (heap r)"
    and "allocated (heap r) (get_prop (heap r) msg ''context'')"
    and "allocated (heap r) (get_prop (heap r) msg ''_metadata'')"
  shows "get_prop (heap (snd s')) (JRef m) ''context'' = JRef (m + 2)
       \<and> own_props (heap (snd s')) (JRef (m + 2)) =
           [''library'' \<mapsto> JRef (m + 1)] ++ own_props (heap r) (get_prop (heap r) msg ''context'')
       \<and> own_props (heap (snd s')) (JRef (m + 1)) =
           [''name'' \<mapsto> JStr ''theanalyticsapi'', ''version'' \<mapsto> JStr (version env)]
       \<and> (\<forall>key v. own_props (heap r) (get_prop (heap r) msg ''context'') key = Some v \<longrightarrow>
             own_props (heap (snd s')) (JRef (m + 2)) key = Some v)
       \<and> get_prop (heap (snd s')) (JRef m) ''_metadata'' = JRef (m + 3)
       \<and> own_props (heap (snd s')) (JRef (m + 3)) =
           [''nodeVersion'' \<mapsto> JStr (nodeVersion env)]
             ++ own_props (heap r) (get_prop (heap r) msg ''_metadata'')
       \<and> (\<forall>key v. own_props (heap r) (get_prop (heap r) msg ''_metadata'') key = Some v \<longrightarrow>
             own_props (heap (snd s')) (JRef (m + 3)) key = Some v)
       \<and> (\<exists>zs. heap (snd s') = heap r @ zs)"
proof -
  obtain a r1 where er: "enrich env ty msg r = (a, r1)" by (cases "enrich env ty msg r")
  have m: "m = a" using en_addr[OF er] assms(3) by simp
  have hp: "heap (snd s') = heap r1" using enqueue_record(1)[OF assms(1) er] assms(2) by simp
  have n2: "m + 2 = Suc (Suc a)" and n1: "m + 1 = Suc a" and n3: "m + 3 = Suc (Suc (Suc a))"
    using m by simp_all
  show ?thesis
    unfolding hp n1 n2 n3
    using en_context[OF er] en_metadata[OF er] en_library[OF er] en_ext[OF er]
      en_ctx_props[OF er assms(4)] en_md_props[OF er assms(5)]
    by (simp add: m map_add_Some_iff)
qed

text \<open>
  The caller's context has a \<^verbatim>\<open>library\<close> of its own, which wins over the library
  identity; the caller's four objects are as they were.
\<close>

theorem enrich_merges_context_witness:
  "enable example_client
   \<and> allocated example_heap (get_prop example_heap (JRef 0) ''context'')
   \<and> allocated example_heap (get_prop example_heap (JRef 0) ''_metadata'')
   \<and> get_prop (heap (snd (enqueue example_env ''track'' (JRef 0) None
                             (example_client, fresh_runtime example_heap)))) (JRef 4) ''context''
       = JRef 6
   \<and> own_props (heap (snd (enqueue example_env ''track'' (JRef 0) None
                             (example_client, fresh_runtime example_heap)))) (JRef 6) ''library''
       = Some (JStr ''mine'')
   \<and> own_props (heap (snd (enqueue example_env ''track'' (JRef 0) None
                             (example_client, fresh_runtime example_heap)))) (JRef 7) ''nodeVersion''
       = Some (JStr ''18.0.0'')
   \<and> take 4 (heap (snd (enqueue example_env ''track'' (JRef 0) None
                             (example_client, fresh_runtime example_heap)))) = example_heap"
proof -
  have h1: "enable example_client" by simp
  have h3: "4 = length (heap (fresh_runtime example_heap))" by simp
  have h4: "allocated (heap (fresh_runtime example_heap))
      (get_prop (heap (fresh_runtime example_heap)) (JRef 0) ''context'')"
    and h5: "allocated (heap (fresh_runtime example_heap))
      (get_prop (heap (fresh_runtime example_heap)) (JRef 0) ''_metadata'')"
    by (simp_all add: allocated_def)
  from enrich_merges_context[OF h1 refl h3 h4 h5, of example_env "''track''" None]
  have *: "get_prop (heap (snd (enqueue example_env ''track'' (JRef 0) None
               (example_client, fresh_runtime example_heap)))) (JRef 4) ''context'' = JRef 6"
    "own_props (heap (snd (enqueue example_env ''track'' (JRef 0) None
               (example_client, fresh_runtime example_heap)))) (JRef 6)
       = [''library'' \<mapsto> JRef 5] ++ own_props example_heap (JRef 1)"
    "own_props (heap (snd (enqueue example_env ''track'' (JRef 0) None
               (example_client, fresh_runtime example_heap)))) (JRef 7)
       = [''nodeVersion'' \<mapsto> JStr (nodeVersion example_env)] ++ own_props example_heap JUndefined"
    "\<exists>zs. heap (snd (enqueue example_env ''track'' (JRef 0) None
               (example_client, fresh_runtime example_heap))) = example_heap @ zs"
    by simp_all
  from *(4) have "take 4 (heap (snd (enqueue example_env ''track'' (JRef 0) None
               (example_client, fresh_runtime example_heap)))) = example_heap"
    by auto
  with * h1 h4 h5 show ?thesis
    by simp
qed

section \<open>The write key\<close>

text \<open>
  C10. Constructing a client with a falsy write key (\<^verbatim>\<open>undefined\<close>, \<^verbatim>\<open>null\<close>, the
  empty string, and also \<^verbatim>\<open>0\<close> and \<^verbatim>\<open>false\<close>) throws the assertion error and yields
  no client. With a truthy write key the construction succeeds, the key is stored, it stays
  the client's key whatever happens to the client afterwards, and every request the client
  issues carries it in the \<^verbatim>\<open>api_key\<close> header.
\<close>

theorem constructor_write_key:
  "(\<not> truthy wk \<longrightarrow>
      constructor env wk opts =
        Inl (AssertionError (''You must pass your project'' @ [CHR 0x27] @ ''s write key.'')))
   \<and> (truthy wk \<longrightarrow>
        (\<exists>c. constructor env wk opts = Inr c \<and> writeKey c = wk
           \<and> (\<forall>evs h. writeKey (fst (run env evs (c, fresh_runtime h))) = wk
                 \<and> (\<forall>rq \<in> set (sent (snd (run env evs (c, fresh_runtime h)))).
                       map_of (headers rq) ''api_key'' = Some wk))))"
proof (cases "truthy wk")
  case False
  then show ?thesis by (simp add: constructor_def Let_def)
next
  case True
  then obtain c where c: "constructor env wk opts = Inr c"
    by (simp add: constructor_def Let_def)
  have "writeKey c = wk" using c True by (auto simp: constructor_def Let_def)
  moreover have "\<forall>evs h. writeKey (fst (run env evs (c, fresh_runtime h))) = wk
                 \<and> (\<forall>rq \<in> set (sent (snd (run env evs (c, fresh_runtime h)))).
                       map_of (headers rq) ''api_key'' = Some wk)"
    using reachable_inv[OF c] by (simp add: client_inv_def)
  ultimately show ?thesis using True c by simp
qed

text \<open>
  The client constructed with \<^verbatim>\<open>'key'\<close> sends its first event with
  \<^verbatim>\<open>api_key: 'key'\<close>; without a key there is no client.
\<close>

theorem constructor_write_key_witness:
  "truthy (JStr ''key'')
   \<and> constructor example_env (JStr ''key'') None = Inr example_client
   \<and> writeKey example_client = JStr ''key''
   \<and> length (sent (snd (run example_env [Enqueue ''track'' (JRef 0) None]
                          (example_client, fresh_runtime example_heap)))) = 1
   \<and> map_of (headers (hd (sent (snd (run example_env [Enqueue ''track'' (JRef 0) None]
                          (example_client, fresh_runtime example_heap)))))) ''api_key''
       = Some (JStr ''key'')
   \<and> \<not> truthy JUndefined
   \<and> constructor example_env JUndefined None =
        Inl (AssertionError (''You must pass your project'' @ [CHR 0x27] @ ''s write key.''))"
proof -
  obtain m r1 where er: "enrich example_env ''track'' (JRef 0) (fresh_runtime example_heap) = (m, r1)"
    by (cases "enrich example_env ''track'' (JRef 0) (fresh_runtime example_heap)")
  have h1: "enable example_client" and h2: "\<not> flushed example_client" by simp_all
  have len: "length (sent (snd (run example_env [Enqueue ''track'' (JRef 0) None]
                          (example_client, fresh_runtime example_heap)))) = 1"
    using enrich_runtime_fields[OF er] by (simp add: run_def enqueue_first[OF h1 h2 er])
  then have mem: "hd (sent (snd (run example_env [Enqueue ''track'' (JRef 0) None]
                          (example_client, fresh_runtime example_heap))))
      \<in> set (sent (snd (run example_env [Enqueue ''track'' (JRef 0) None]
                          (example_client, fresh_runtime example_heap))))"
    by (cases "sent (snd (run example_env [Enqueue ''track'' (JRef 0) None]
                          (example_client, fresh_runtime example_heap)))") simp_all
  from constructor_write_key[of "JStr ''key''" example_env None]
  have "\<forall>evs h. \<forall>rq \<in> set (sent (snd (run example_env evs (example_client, fresh_runtime h)))).
                       map_of (headers rq) ''api_key'' = Some (JStr ''key'')"
    by (simp add: constructor_example)
  with mem have "map_of (headers (hd (sent (snd (run example_env [Enqueue ''track'' (JRef 0) None]
                          (example_client, fresh_runtime example_heap)))))) ''api_key''
       = Some (JStr ''key'')" by blast
  moreover from constructor_write_key[of JUndefined example_env None]
  have "constructor example_env JUndefined None =
        Inl (AssertionError (''You must pass your project'' @ [CHR 0x27] @ ''s write key.''))"
    by simp
  ultimately show ?thesis using len by (simp add: constructor_example)
qed

end
